theory Spec2Isabelle
  imports Main "HOL-Library.Char_ord" "HOL-Library.List_Lexorder"
begin

section \<open>Data model\<close>

text \<open>
  The embedding follows \<^verbatim>\<open>src/buttonmapper/ControllerMapper.cpp\<close>. Controller identifiers
  and feature names are \<^verbatim>\<open>std::string\<close>: byte strings compared lexicographically, which is
  the order of \<^typ>\<open>string\<close> given by the two library theories imported above.
\<close>

text \<open>
  The feature kinds the equality lambda of \<^verbatim>\<open>AddControllerMap\<close> switches on. The enumeration
  belongs to the host's peripheral API; every value the switch sends to \<^verbatim>\<open>default\<close> is
  \<open>JOYSTICK_FEATURE_TYPE_OTHER\<close> here.
\<close>

datatype JOYSTICK_FEATURE_TYPE =
    JOYSTICK_FEATURE_TYPE_SCALAR
  | JOYSTICK_FEATURE_TYPE_ANALOG_STICK
  | JOYSTICK_FEATURE_TYPE_ACCELEROMETER
  | JOYSTICK_FEATURE_TYPE_MOTOR
  | JOYSTICK_FEATURE_TYPE_OTHER nat

text \<open>
  \<^verbatim>\<open>ADDON::Joystick\<close>: the attributes of a device that \<^verbatim>\<open>OnAdd\<close> and
  \<^verbatim>\<open>TransformFeatures\<close> read. Its accessor \<^verbatim>\<open>Name()\<close> is the field \<open>Joystick.Name\<close>.
\<close>

record Joystick =
  Name :: string
  Provider :: string
  ButtonCount :: nat
  HatCount :: nat
  AxisCount :: nat

text \<open>
  \<^verbatim>\<open>ADDON::JoystickFeature\<close>, with one field per accessor the source calls. The driver
  primitives are an opaque type \<open>'p\<close> compared with \<open>=\<close>. From here on the unqualified
  \<open>Name\<close> is the feature's name.
\<close>

record 'p JoystickFeature =
  Name :: string
  Type :: JOYSTICK_FEATURE_TYPE
  Primitive :: 'p
  Up :: 'p
  Down :: 'p
  Right :: 'p
  Left :: 'p
  PositiveX :: 'p
  PositiveY :: 'p
  PositiveZ :: 'p

type_synonym 'p FeatureVector = "'p JoystickFeature list"

text \<open>
  \<^verbatim>\<open>ButtonMap\<close> is iterated from \<^verbatim>\<open>begin()\<close> to \<^verbatim>\<open>end()\<close> and its entries are read
  through \<^verbatim>\<open>first\<close> and \<^verbatim>\<open>second\<close>: an association list in iteration order. A button map
  of the program is an ordered mapping, so its keys are strictly ascending; \<open>wellFormed\<close>
  says so.
\<close>

type_synonym 'p ButtonMap = "(string \<times> 'p FeatureVector) list"

definition wellFormed :: "'p ButtonMap \<Rightarrow> bool" where
  "wellFormed buttonMap = sorted_wrt (<) (map fst buttonMap)"

text \<open>
  \<^verbatim>\<open>DevicePtr\<close> is a shared pointer: the identity of the device it points to, and the
  attributes read through it.

  Modelled from the spec: the declaration of \<^verbatim>\<open>m_observedDevices\<close> and of the order on its
  elements is in \<^verbatim>\<open>ControllerMapper.h\<close>, which is not under src/. The spec describes a set of
  device identities; the set holds \<open>identity\<close>.
\<close>

record DevicePtr =
  identity :: nat
  deref :: Joystick

text \<open>
  Modelled from the spec: the classes \<^verbatim>\<open>CJoystickFamily\<close> and \<^verbatim>\<open>CDriverGeometry\<close> are
  declared outside src/. The spec gives a family key as device name and provider and a
  geometry key as the button, hat and axis counts, both usable as map keys; the
  constructors below are the source's constructor calls.
\<close>

datatype CJoystickFamily = CJoystickFamily string string

datatype CDriverGeometry = CDriverGeometry nat nat nat

text \<open>
  \<^verbatim>\<open>ControllerMapItem\<close> and \<^verbatim>\<open>FeatureMapItem\<close> are aggregates of two strings. The fields of
  the second are named in \<^verbatim>\<open>TransformFeatures\<close>; those of the first follow the same scheme.
\<close>

record ControllerMapItem =
  fromController :: string
  toController :: string

record FeatureMapItem =
  fromFeature :: string
  toFeature :: string

text \<open>
  \<^verbatim>\<open>FeatureOccurrences\<close> is iterated by \<^verbatim>\<open>TransformFeatures\<close>, so it is an association list
  kept in key order; \<^verbatim>\<open>ControllerMap\<close> is only subscripted, so it is a map.

  Modelled from the spec: both types are declared in \<^verbatim>\<open>ControllerModel.h\<close>, which is not
  under src/. The spec gives a mapping from ordered pairs of feature names to an
  occurrence count that is a positive integer; the keys are ordered by the first name,
  then by the second.
\<close>

type_synonym FeatureOccurrences = "(FeatureMapItem \<times> nat) list"

type_synonym ControllerMap = "ControllerMapItem \<rightharpoonup> FeatureOccurrences"

definition FeatureMapItem_less :: "FeatureMapItem \<Rightarrow> FeatureMapItem \<Rightarrow> bool" where
  "FeatureMapItem_less a b =
     (fromFeature a < fromFeature b \<or>
      (fromFeature a = fromFeature b \<and> toFeature a < toFeature b))"

text \<open>
  Modelled from the spec: the class \<^verbatim>\<open>CControllerModel\<close> with its methods \<^verbatim>\<open>GetMap\<close>,
  \<^verbatim>\<open>Reset\<close> and \<^verbatim>\<open>GetNormalizedFeatures\<close> is not under src/. The spec gives a model as the
  mapping from controller pairs to feature correspondence counts (\<open>m_map\<close>, what
  \<^verbatim>\<open>GetMap\<close> returns) together with cached state derived from it (\<open>derived\<close>).
\<close>

record CControllerModel =
  m_map :: ControllerMap
  derived :: ControllerMap

definition emptyModel :: CControllerModel where
  "emptyModel = \<lparr>m_map = Map.empty, derived = Map.empty\<rparr>"

text \<open>
  Modelled from the spec: \<^verbatim>\<open>CControllerModel::Reset\<close> is not under src/. The spec: it
  invalidates the cached state derived from the counts, and nothing else.
\<close>

definition Reset :: "CControllerModel \<Rightarrow> CControllerModel" where
  "Reset model = model\<lparr>derived := Map.empty\<rparr>"

text \<open>
  Modelled from the spec: \<^verbatim>\<open>CControllerModel::GetNormalizedFeatures\<close> is not under src/.
  The spec: the query returns the mapping stored for the canonical pair verbatim,
  whatever the swap flag; for a pair without an entry that is the empty mapping.
\<close>

definition GetNormalizedFeatures ::
  "CControllerModel \<Rightarrow> ControllerMapItem \<Rightarrow> bool \<Rightarrow> FeatureOccurrences" where
  "GetNormalizedFeatures model needle bSwap =
     (case m_map model needle of None \<Rightarrow> [] | Some features \<Rightarrow> features)"

text \<open>The members of \<^verbatim>\<open>CControllerMapper\<close>.\<close>

record CControllerMapper =
  m_observedDevices :: "nat set"
  m_familyModels :: "CJoystickFamily \<rightharpoonup> CControllerModel"
  m_geometryModels :: "CDriverGeometry \<rightharpoonup> CControllerModel"

definition emptyMapper :: CControllerMapper where
  "emptyMapper =
     \<lparr>m_observedDevices = {}, m_familyModels = Map.empty, m_geometryModels = Map.empty\<rparr>"

section \<open>Operations\<close>

text \<open>
  \<^verbatim>\<open>operator[]\<close> of an ordered map: the value stored under the key, or a default-constructed
  value that is then stored under it.
\<close>

definition subscript :: "('k \<rightharpoonup> 'v) \<Rightarrow> 'v \<Rightarrow> 'k \<Rightarrow> 'v" where
  "subscript m dflt k = (case m k of None \<Rightarrow> dflt | Some v \<Rightarrow> v)"

text \<open>The predicate that \<^verbatim>\<open>AddControllerMap\<close> hands to \<^verbatim>\<open>std::find_if\<close>.\<close>

definition Equivalent :: "'p JoystickFeature \<Rightarrow> 'p JoystickFeature \<Rightarrow> bool" where
  "Equivalent fromF feature =
     (if Type fromF = Type feature then
        (case Type feature of
           JOYSTICK_FEATURE_TYPE_SCALAR \<Rightarrow> Primitive fromF = Primitive feature
         | JOYSTICK_FEATURE_TYPE_MOTOR \<Rightarrow> Primitive fromF = Primitive feature
         | JOYSTICK_FEATURE_TYPE_ANALOG_STICK \<Rightarrow>
             Up fromF = Up feature \<and> Down fromF = Down feature \<and>
             Right fromF = Right feature \<and> Left fromF = Left feature
         | JOYSTICK_FEATURE_TYPE_ACCELEROMETER \<Rightarrow>
             PositiveX fromF = PositiveX feature \<and> PositiveY fromF = PositiveY feature \<and>
             PositiveZ fromF = PositiveZ feature
         | JOYSTICK_FEATURE_TYPE_OTHER other \<Rightarrow> False)
      else False)"

text \<open>
  \<^verbatim>\<open>++featureMap[featureMapItem]\<close>: a key that is present has its count incremented, a new
  key is inserted at its place in the order with count 0 and then incremented.
\<close>

fun increment :: "FeatureMapItem \<Rightarrow> FeatureOccurrences \<Rightarrow> FeatureOccurrences" where
  "increment item [] = [(item, 1)]"
| "increment item ((key, n) # rest) =
     (if item = key then (key, n + 1) # rest
      else if FeatureMapItem_less item key then (item, 1) # (key, n) # rest
      else (key, n) # increment item rest)"

text \<open>The loop of \<^verbatim>\<open>AddControllerMap\<close> over \<^verbatim>\<open>featuresFrom\<close>, on the pair of the feature
  map and \<^verbatim>\<open>bChanged\<close>.\<close>

fun AddControllerMap_loop ::
  "'p FeatureVector \<Rightarrow> 'p FeatureVector \<Rightarrow> FeatureOccurrences \<times> bool \<Rightarrow>
   FeatureOccurrences \<times> bool" where
  "AddControllerMap_loop [] featuresTo acc = acc"
| "AddControllerMap_loop (fromF # rest) featuresTo (featureMap, bChanged) =
     (case find (Equivalent fromF) featuresTo of
        None \<Rightarrow> AddControllerMap_loop rest featuresTo (featureMap, bChanged)
      | Some toF \<Rightarrow>
          AddControllerMap_loop rest featuresTo
            (increment \<lparr>fromFeature = Name fromF, toFeature = Name toF\<rparr> featureMap, True))"

text \<open>
  \<^verbatim>\<open>AddControllerMap\<close> returns \<^verbatim>\<open>bChanged\<close> and updates the model it is given. The failed
  assertion is the result \<open>None\<close>.
\<close>

definition AddControllerMap ::
  "CControllerModel \<Rightarrow> string \<Rightarrow> 'p FeatureVector \<Rightarrow> string \<Rightarrow> 'p FeatureVector \<Rightarrow>
   (bool \<times> CControllerModel) option" where
  "AddControllerMap model controllerFrom featuresFrom controllerTo featuresTo =
     (if \<not> controllerFrom < controllerTo then None
      else
        let needle = \<lparr>fromController = controllerFrom, toController = controllerTo\<rparr>;
            (featureMap, bChanged) =
              AddControllerMap_loop featuresFrom featuresTo
                (subscript (m_map model) [] needle, False);
            model' = model\<lparr>m_map := (m_map model)(needle \<mapsto> featureMap)\<rparr>
        in Some (bChanged, if bChanged then Reset model' else model'))"

text \<open>
  The inner loop of \<^verbatim>\<open>OnAdd\<close> over the entries \<^verbatim>\<open>itFrom\<close> for one \<^verbatim>\<open>itTo\<close>, on the pair
  of the family model and the geometry model.
\<close>

fun OnAdd_from ::
  "string \<times> 'p FeatureVector \<Rightarrow> 'p ButtonMap \<Rightarrow> CControllerModel \<times> CControllerModel \<Rightarrow>
   (CControllerModel \<times> CControllerModel) option" where
  "OnAdd_from itTo [] models = Some models"
| "OnAdd_from itTo (itFrom # rest) (familyModel, geometryModel) =
     (case AddControllerMap familyModel (fst itFrom) (snd itFrom) (fst itTo) (snd itTo) of
        None \<Rightarrow> None
      | Some (changedF, familyModel') \<Rightarrow>
          (case AddControllerMap geometryModel (fst itFrom) (snd itFrom) (fst itTo) (snd itTo) of
             None \<Rightarrow> None
           | Some (changedG, geometryModel') \<Rightarrow>
               OnAdd_from itTo rest (familyModel', geometryModel')))"

text \<open>
  The outer loop over \<^verbatim>\<open>itTo\<close>. The inner loop starts at \<^verbatim>\<open>buttonMap.begin()\<close> and runs
  while \<^verbatim>\<open>itFrom->first < itTo->first\<close>; it stops at \<^verbatim>\<open>itTo\<close> at the latest.
\<close>

fun OnAdd_to ::
  "'p ButtonMap \<Rightarrow> 'p ButtonMap \<Rightarrow> CControllerModel \<times> CControllerModel \<Rightarrow>
   (CControllerModel \<times> CControllerModel) option" where
  "OnAdd_to buttonMap [] models = Some models"
| "OnAdd_to buttonMap (itTo # rest) models =
     (case OnAdd_from itTo (takeWhile (\<lambda>itFrom. fst itFrom < fst itTo) buttonMap) models of
        None \<Rightarrow> None
      | Some models' \<Rightarrow> OnAdd_to buttonMap rest models')"

definition familyOf :: "Joystick \<Rightarrow> CJoystickFamily" where
  "familyOf driverInfo = CJoystickFamily (Joystick.Name driverInfo) (Provider driverInfo)"

definition geometryOf :: "Joystick \<Rightarrow> CDriverGeometry" where
  "geometryOf driverInfo =
     CDriverGeometry (ButtonCount driverInfo) (HatCount driverInfo) (AxisCount driverInfo)"

definition OnAdd ::
  "CControllerMapper \<Rightarrow> DevicePtr \<Rightarrow> 'p ButtonMap \<Rightarrow> CControllerMapper option" where
  "OnAdd mapper driverInfo buttonMap =
     (if identity driverInfo \<in> m_observedDevices mapper then Some mapper
      else
        let family = familyOf (deref driverInfo);
            geometry = geometryOf (deref driverInfo);
            familyModel = subscript (m_familyModels mapper) emptyModel family;
            geometryModel = subscript (m_geometryModels mapper) emptyModel geometry
        in case OnAdd_to buttonMap buttonMap (familyModel, geometryModel) of
             None \<Rightarrow> None
           | Some (familyModel', geometryModel') \<Rightarrow>
               Some \<lparr>m_observedDevices = insert (identity driverInfo) (m_observedDevices mapper),
                     m_familyModels = (m_familyModels mapper)(family \<mapsto> familyModel'),
                     m_geometryModels = (m_geometryModels mapper)(geometry \<mapsto> geometryModel')\<rparr>)"

text \<open>
  The inner loop of \<^verbatim>\<open>TransformFeatures\<close> over the entries of \<^verbatim>\<open>normalizedFeatures\<close>; it
  appends to \<^verbatim>\<open>transformedFeatures\<close>.
\<close>

fun TransformFeatures_entries ::
  "bool \<Rightarrow> FeatureOccurrences \<Rightarrow> 'p FeatureVector \<Rightarrow> 'p FeatureVector \<Rightarrow> 'p FeatureVector" where
  "TransformFeatures_entries bSwap [] features transformedFeatures = transformedFeatures"
| "TransformFeatures_entries bSwap ((key, n) # rest) features transformedFeatures =
     (let fromName = (if bSwap then toFeature key else fromFeature key);
          toName = (if bSwap then fromFeature key else toFeature key)
      in case find (\<lambda>feature. Name feature = fromName) features of
           None \<Rightarrow> TransformFeatures_entries bSwap rest features transformedFeatures
         | Some feature \<Rightarrow>
             TransformFeatures_entries bSwap rest features
               (transformedFeatures @ [feature\<lparr>Name := toName\<rparr>]))"

text \<open>The loop over the array \<^verbatim>\<open>models\<close>, left as soon as the output is not empty.\<close>

fun TransformFeatures_models ::
  "CControllerModel list \<Rightarrow> ControllerMapItem \<Rightarrow> bool \<Rightarrow> 'p FeatureVector \<Rightarrow>
   'p FeatureVector \<Rightarrow> 'p FeatureVector" where
  "TransformFeatures_models [] needle bSwap features transformedFeatures = transformedFeatures"
| "TransformFeatures_models (model # rest) needle bSwap features transformedFeatures =
     (let transformedFeatures' =
            TransformFeatures_entries bSwap (GetNormalizedFeatures model needle bSwap)
              features transformedFeatures
      in if transformedFeatures' \<noteq> [] then transformedFeatures'
         else TransformFeatures_models rest needle bSwap features transformedFeatures')"

text \<open>
  \<^verbatim>\<open>TransformFeatures\<close> returns the mapper, in which both models now exist, and the output
  vector.
\<close>

definition TransformFeatures ::
  "CControllerMapper \<Rightarrow> Joystick \<Rightarrow> string \<Rightarrow> string \<Rightarrow> 'p FeatureVector \<Rightarrow>
   'p FeatureVector \<Rightarrow> CControllerMapper \<times> 'p FeatureVector" where
  "TransformFeatures mapper driverInfo fromC toC features transformedFeatures =
     (let bSwap = (fromC \<ge> toC);
          needle = \<lparr>fromController = (if bSwap then toC else fromC),
                    toController = (if bSwap then fromC else toC)\<rparr>;
          family = familyOf driverInfo;
          geometry = geometryOf driverInfo;
          familyModel = subscript (m_familyModels mapper) emptyModel family;
          geometryModel = subscript (m_geometryModels mapper) emptyModel geometry
      in (mapper\<lparr>m_familyModels := (m_familyModels mapper)(family \<mapsto> familyModel),
                 m_geometryModels := (m_geometryModels mapper)(geometry \<mapsto> geometryModel)\<rparr>,
          TransformFeatures_models [familyModel, geometryModel] needle bSwap features
            transformedFeatures))"

section \<open>Observations on a mapper\<close>

text \<open>
  The key \<^verbatim>\<open>needle\<close> that \<^verbatim>\<open>TransformFeatures\<close> builds from the two controllers of a query.
\<close>

definition needleOf :: "string \<Rightarrow> string \<Rightarrow> ControllerMapItem" where
  "needleOf fromC toC =
     \<lparr>fromController = (if fromC \<ge> toC then toC else fromC),
      toController = (if fromC \<ge> toC then fromC else toC)\<rparr>"

text \<open>
  The models that the subscripts on the two registries give for a device: the stored
  model, or a new empty one.
\<close>

definition familyModelOf :: "CControllerMapper \<Rightarrow> Joystick \<Rightarrow> CControllerModel" where
  "familyModelOf mapper driverInfo =
     subscript (m_familyModels mapper) emptyModel (familyOf driverInfo)"

definition geometryModelOf :: "CControllerMapper \<Rightarrow> Joystick \<Rightarrow> CControllerModel" where
  "geometryModelOf mapper driverInfo =
     subscript (m_geometryModels mapper) emptyModel (geometryOf driverInfo)"

text \<open>
  What one model contributes to a query: one pass of the body of the loop over
  \<^verbatim>\<open>models\<close>, started on an empty output vector.
\<close>

definition modelFeatures ::
  "CControllerModel \<Rightarrow> string \<Rightarrow> string \<Rightarrow> 'p FeatureVector \<Rightarrow> 'p FeatureVector" where
  "modelFeatures model fromC toC features =
     TransformFeatures_entries (fromC \<ge> toC)
       (GetNormalizedFeatures model (needleOf fromC toC) (fromC \<ge> toC)) features []"

text \<open>
  The calls of \<^verbatim>\<open>AddControllerMap\<close> that the two loops of \<^verbatim>\<open>OnAdd\<close> make for a button map,
  as the list of the entries \<^verbatim>\<open>(itFrom, itTo)\<close> in the order of the calls, and the effect of
  such a list of calls on the family model and the geometry model.
\<close>

type_synonym 'p entryPair = "(string \<times> 'p FeatureVector) \<times> (string \<times> 'p FeatureVector)"

definition enumerated :: "'p ButtonMap \<Rightarrow> 'p entryPair list" where
  "enumerated buttonMap =
     concat (map (\<lambda>itTo. map (\<lambda>itFrom. (itFrom, itTo))
                           (takeWhile (\<lambda>itFrom. fst itFrom < fst itTo) buttonMap))
                 buttonMap)"

fun feed ::
  "'p entryPair list \<Rightarrow> CControllerModel \<times> CControllerModel \<Rightarrow>
   (CControllerModel \<times> CControllerModel) option" where
  "feed [] models = Some models"
| "feed ((itFrom, itTo) # rest) (familyModel, geometryModel) =
     (case AddControllerMap familyModel (fst itFrom) (snd itFrom) (fst itTo) (snd itTo) of
        None \<Rightarrow> None
      | Some (changedF, familyModel') \<Rightarrow>
          (case AddControllerMap geometryModel (fst itFrom) (snd itFrom) (fst itTo) (snd itTo) of
             None \<Rightarrow> None
           | Some (changedG, geometryModel') \<Rightarrow> feed rest (familyModel', geometryModel')))"

definition keyOf :: "'p entryPair \<Rightarrow> ControllerMapItem" where
  "keyOf pair = \<lparr>fromController = fst (fst pair), toController = fst (snd pair)\<rparr>"

text \<open>The canonical order of the keys of a model, and of all models of a mapper.\<close>

definition canonicalKeys :: "CControllerModel \<Rightarrow> bool" where
  "canonicalKeys model = (\<forall>key\<in>dom (m_map model). fromController key < toController key)"

definition mapperCanonical :: "CControllerMapper \<Rightarrow> bool" where
  "mapperCanonical mapper =
     ((\<forall>model\<in>ran (m_familyModels mapper). canonicalKeys model) \<and>
      (\<forall>model\<in>ran (m_geometryModels mapper). canonicalKeys model))"

text \<open>Sequences of calls of the two public operations.\<close>

datatype 'p call =
    Ingest DevicePtr "'p ButtonMap"
  | Transform Joystick string string "'p FeatureVector" "'p FeatureVector"

fun step :: "CControllerMapper \<Rightarrow> 'p call \<Rightarrow> CControllerMapper option" where
  "step mapper (Ingest device buttonMap) = OnAdd mapper device buttonMap"
| "step mapper (Transform driverInfo fromC toC features out) =
     Some (fst (TransformFeatures mapper driverInfo fromC toC features out))"

fun run :: "'p call list \<Rightarrow> CControllerMapper \<Rightarrow> CControllerMapper option" where
  "run [] mapper = Some mapper"
| "run (c # calls) mapper =
     (case step mapper c of None \<Rightarrow> None | Some mapper' \<Rightarrow> run calls mapper')"

fun ingests :: "'p call list \<Rightarrow> (DevicePtr \<times> 'p ButtonMap) list" where
  "ingests [] = []"
| "ingests (Ingest device buttonMap # calls) = (device, buttonMap) # ingests calls"
| "ingests (Transform driverInfo fromC toC features out # calls) = ingests calls"

text \<open>
  The count stored for a feature correspondence: in a feature map, in a model under a
  controller pair, and in the family model and the geometry model of a device. A
  correspondence without an entry counts 0.
\<close>

definition occurrenceCount :: "FeatureOccurrences \<Rightarrow> FeatureMapItem \<Rightarrow> nat" where
  "occurrenceCount featureMap item =
     (case map_of featureMap item of None \<Rightarrow> 0 | Some n \<Rightarrow> n)"

definition modelCount :: "CControllerModel \<Rightarrow> ControllerMapItem \<Rightarrow> FeatureMapItem \<Rightarrow> nat" where
  "modelCount model pair item = occurrenceCount (subscript (m_map model) [] pair) item"

definition familyCount ::
  "CControllerMapper \<Rightarrow> Joystick \<Rightarrow> ControllerMapItem \<Rightarrow> FeatureMapItem \<Rightarrow> nat" where
  "familyCount mapper driverInfo pair item =
     modelCount (familyModelOf mapper driverInfo) pair item"

definition geometryCount ::
  "CControllerMapper \<Rightarrow> Joystick \<Rightarrow> ControllerMapItem \<Rightarrow> FeatureMapItem \<Rightarrow> nat" where
  "geometryCount mapper driverInfo pair item =
     modelCount (geometryModelOf mapper driverInfo) pair item"

text \<open>
  A feature map is an ordered map: its keys are strictly ascending. The same for all
  feature maps of a model and of a mapper.
\<close>

definition sortedOccurrences :: "FeatureOccurrences \<Rightarrow> bool" where
  "sortedOccurrences featureMap = sorted_wrt FeatureMapItem_less (map fst featureMap)"

definition sortedModel :: "CControllerModel \<Rightarrow> bool" where
  "sortedModel model = (\<forall>featureMap\<in>ran (m_map model). sortedOccurrences featureMap)"

definition sortedMapper :: "CControllerMapper \<Rightarrow> bool" where
  "sortedMapper mapper =
     ((\<forall>model\<in>ran (m_familyModels mapper). sortedModel model) \<and>
      (\<forall>model\<in>ran (m_geometryModels mapper). sortedModel model))"

text \<open>
  How often two feature vectors reproduce a feature correspondence: the number of
  features of the first vector with the first name of the correspondence whose first
  equivalent feature in the second vector has the second name. A button map reproduces a
  correspondence of a controller pair if the pair is in canonical order, both controllers
  are entries of the map, and their feature vectors reproduce the correspondence once.
\<close>

definition matches :: "'p FeatureVector \<Rightarrow> 'p FeatureVector \<Rightarrow> FeatureMapItem \<Rightarrow> nat" where
  "matches featuresFrom featuresTo item =
     length (filter (\<lambda>f. case find (Equivalent f) featuresTo of
                            None \<Rightarrow> False
                          | Some t \<Rightarrow> \<lparr>fromFeature = Name f, toFeature = Name t\<rparr> = item)
                    featuresFrom)"

definition reproduces :: "'p ButtonMap \<Rightarrow> ControllerMapItem \<Rightarrow> FeatureMapItem \<Rightarrow> bool" where
  "reproduces buttonMap pair item =
     (wellFormed buttonMap \<and> fromController pair < toController pair \<and>
      (case map_of buttonMap (fromController pair) of
         None \<Rightarrow> False
       | Some featuresFrom \<Rightarrow>
           (case map_of buttonMap (toController pair) of
              None \<Rightarrow> False
            | Some featuresTo \<Rightarrow> matches featuresFrom featuresTo item = 1)))"

text \<open>What the calls for a list of entry pairs add to the count of a correspondence.\<close>

definition contribution :: "'p entryPair list \<Rightarrow> ControllerMapItem \<Rightarrow> FeatureMapItem \<Rightarrow> nat" where
  "contribution pairs pair item =
     sum_list (map (\<lambda>p. if keyOf p = pair then matches (snd (fst p)) (snd (snd p)) item else 0)
                   pairs)"

text \<open>
  The features of the first vector that have an equivalent feature in the second, and
  the feature correspondences that the loop of \<^verbatim>\<open>AddControllerMap\<close> counts for them: the
  name of the feature with the name of the first feature equivalent to it. Two feature
  vectors correspond one to one if the names of the first vector are distinct and the
  correspondences send them to distinct names.
\<close>

definition matched :: "'p FeatureVector \<Rightarrow> 'p FeatureVector \<Rightarrow> 'p FeatureVector" where
  "matched featuresFrom featuresTo =
     filter (\<lambda>f. find (Equivalent f) featuresTo \<noteq> None) featuresFrom"

definition correspondences :: "'p FeatureVector \<Rightarrow> 'p FeatureVector \<Rightarrow> FeatureMapItem list" where
  "correspondences featuresFrom featuresTo =
     map (\<lambda>f. \<lparr>fromFeature = Name f,
                toFeature = Name (the (find (Equivalent f) featuresTo))\<rparr>)
         (matched featuresFrom featuresTo)"


section \<open>Scenario data\<close>

text \<open>
  The features of the scenarios, with natural numbers as driver primitives and 0 for a
  primitive that the kind of the feature does not use.
\<close>

definition Scalar :: "nat \<Rightarrow> string \<Rightarrow> nat JoystickFeature" where
  "Scalar p name =
     \<lparr>Name = name, Type = JOYSTICK_FEATURE_TYPE_SCALAR, Primitive = p,
      Up = 0, Down = 0, Right = 0, Left = 0, PositiveX = 0, PositiveY = 0, PositiveZ = 0\<rparr>"

definition Motor :: "nat \<Rightarrow> string \<Rightarrow> nat JoystickFeature" where
  "Motor p name =
     \<lparr>Name = name, Type = JOYSTICK_FEATURE_TYPE_MOTOR, Primitive = p,
      Up = 0, Down = 0, Right = 0, Left = 0, PositiveX = 0, PositiveY = 0, PositiveZ = 0\<rparr>"

definition AnalogStick :: "nat \<Rightarrow> nat \<Rightarrow> nat \<Rightarrow> nat \<Rightarrow> string \<Rightarrow> nat JoystickFeature" where
  "AnalogStick u d r l name =
     \<lparr>Name = name, Type = JOYSTICK_FEATURE_TYPE_ANALOG_STICK, Primitive = 0,
      Up = u, Down = d, Right = r, Left = l, PositiveX = 0, PositiveY = 0, PositiveZ = 0\<rparr>"

definition Accelerometer :: "nat \<Rightarrow> nat \<Rightarrow> nat \<Rightarrow> string \<Rightarrow> nat JoystickFeature" where
  "Accelerometer x y z name =
     \<lparr>Name = name, Type = JOYSTICK_FEATURE_TYPE_ACCELEROMETER, Primitive = 0,
      Up = 0, Down = 0, Right = 0, Left = 0, PositiveX = x, PositiveY = y, PositiveZ = z\<rparr>"

definition OtherFeature :: "nat \<Rightarrow> nat \<Rightarrow> string \<Rightarrow> nat JoystickFeature" where
  "OtherFeature kind p name =
     \<lparr>Name = name, Type = JOYSTICK_FEATURE_TYPE_OTHER kind, Primitive = p,
      Up = p, Down = p, Right = p, Left = p, PositiveX = p, PositiveY = p, PositiveZ = p\<rparr>"

text \<open>A device of family F with ten buttons, one hat and four axes, and a second one.\<close>

definition D1 :: DevicePtr where
  "D1 = \<lparr>identity = 1,
         deref = \<lparr>Joystick.Name = ''F'', Provider = ''linux'', ButtonCount = 10, HatCount = 1,
                  AxisCount = 4\<rparr>\<rparr>"

definition D2 :: DevicePtr where
  "D2 = \<lparr>identity = 2,
         deref = \<lparr>Joystick.Name = ''F'', Provider = ''linux'', ButtonCount = 10, HatCount = 1,
                  AxisCount = 4\<rparr>\<rparr>"

definition map1 :: "nat ButtonMap" where
  "map1 = [(''Gamepad'', [Scalar 1 ''A'']), (''Wheel'', [Scalar 1 ''Accelerate''])]"

definition needle1 :: ControllerMapItem where
  "needle1 = \<lparr>fromController = ''Gamepad'', toController = ''Wheel''\<rparr>"

definition map2 :: "nat ButtonMap" where
  "map2 = [(''Gamepad'', [Scalar 2 ''B'']), (''Wheel'', [Scalar 2 ''Brake''])]"

definition map3 :: "nat ButtonMap" where
  "map3 = [(''Gamepad'', [Scalar 1 ''A'']), (''Joypad'', [Scalar 1 ''Cross'']),
           (''Wheel'', [Scalar 1 ''Accelerate''])]"




text \<open>A model that has learned the correspondence of the scenario once, with a cache.\<close>

definition model1 :: CControllerModel where
  "model1 =
     \<lparr>m_map = [needle1 \<mapsto> [(\<lparr>fromFeature = ''A'', toFeature = ''Accelerate''\<rparr>, 1)]],
      derived = [needle1 \<mapsto> [(\<lparr>fromFeature = ''A'', toFeature = ''Accelerate''\<rparr>, 1)]]\<rparr>"

text \<open>
  A joystick of another family with the geometry of \<open>D1\<close>, a device pointer to it, and a
  joystick of the family of \<open>D1\<close> with another geometry.
\<close>

definition J2 :: Joystick where
  "J2 = \<lparr>Joystick.Name = ''Other'', Provider = ''linux'', ButtonCount = 10, HatCount = 1,
         AxisCount = 4\<rparr>"

definition D3 :: DevicePtr where
  "D3 = \<lparr>identity = 3, deref = J2\<rparr>"

definition J3 :: Joystick where
  "J3 = \<lparr>Joystick.Name = ''F'', Provider = ''linux'', ButtonCount = 12, HatCount = 0,
         AxisCount = 2\<rparr>"

text \<open>A joystick that shares neither the family nor the geometry of \<open>D1\<close>.\<close>

definition J4 :: Joystick where
  "J4 = \<lparr>Joystick.Name = ''Other'', Provider = ''linux'', ButtonCount = 12, HatCount = 0,
         AxisCount = 2\<rparr>"

text \<open>A second device pointer, to \<open>J4\<close>, and the correspondence of the scenario.\<close>

definition D5 :: DevicePtr where
  "D5 = \<lparr>identity = 5, deref = J4\<rparr>"

definition item1 :: FeatureMapItem where
  "item1 = \<lparr>fromFeature = ''A'', toFeature = ''Accelerate''\<rparr>"

text \<open>
  The mapper after \<open>D1\<close> was ingested with \<open>map1\<close>, and the mapper after \<open>D3\<close> was then
  ingested with \<open>map2\<close>.
\<close>

definition entry1 :: "FeatureMapItem \<times> nat" where
  "entry1 = (\<lparr>fromFeature = ''A'', toFeature = ''Accelerate''\<rparr>, 1)"

definition entry2 :: "FeatureMapItem \<times> nat" where
  "entry2 = (\<lparr>fromFeature = ''B'', toFeature = ''Brake''\<rparr>, 1)"

definition learned1 :: CControllerModel where
  "learned1 = \<lparr>m_map = [needle1 \<mapsto> [entry1]], derived = Map.empty\<rparr>"

definition learned2 :: CControllerModel where
  "learned2 = \<lparr>m_map = [needle1 \<mapsto> [entry2]], derived = Map.empty\<rparr>"

definition learned12 :: CControllerModel where
  "learned12 = \<lparr>m_map = [needle1 \<mapsto> [entry1, entry2]], derived = Map.empty\<rparr>"

definition mapper1 :: CControllerMapper where
  "mapper1 =
     \<lparr>m_observedDevices = {1},
      m_familyModels = [familyOf (deref D1) \<mapsto> learned1],
      m_geometryModels = [geometryOf (deref D1) \<mapsto> learned1]\<rparr>"

definition mapper2 :: CControllerMapper where
  "mapper2 =
     \<lparr>m_observedDevices = {3, 1},
      m_familyModels = [familyOf (deref D1) \<mapsto> learned1, familyOf J2 \<mapsto> learned2],
      m_geometryModels = [geometryOf (deref D1) \<mapsto> learned12]\<rparr>"

text \<open>The mapper after \<open>D1\<close> and then \<open>D5\<close> were ingested, both with \<open>map1\<close>.\<close>

definition mapper15 :: CControllerMapper where
  "mapper15 =
     \<lparr>m_observedDevices = {5, 1},
      m_familyModels = [familyOf (deref D1) \<mapsto> learned1, familyOf J4 \<mapsto> learned1],
      m_geometryModels = [geometryOf (deref D1) \<mapsto> learned1, geometryOf J4 \<mapsto> learned1]\<rparr>"

section \<open>The feature equality lambda\<close>

text \<open>
  C4. The predicate is false for features of different kinds; for two features of the
  same kind it compares the single primitive of scalar and motor features, the four
  directional primitives of analog sticks and the three positive-axis primitives of
  accelerometers; it is false for every other kind; and renaming either feature does not
  change its value.
\<close>

theorem Equivalent_cases:
  "(Type a \<noteq> Type b \<longrightarrow> \<not> Equivalent a b) \<and>
   (Type a = Type b \<and> Type b \<in> {JOYSTICK_FEATURE_TYPE_SCALAR, JOYSTICK_FEATURE_TYPE_MOTOR} \<longrightarrow>
      Equivalent a b = (Primitive a = Primitive b)) \<and>
   (Type a = Type b \<and> Type b = JOYSTICK_FEATURE_TYPE_ANALOG_STICK \<longrightarrow>
      Equivalent a b =
        (Up a = Up b \<and> Down a = Down b \<and> Left a = Left b \<and> Right a = Right b)) \<and>
   (Type a = Type b \<and> Type b = JOYSTICK_FEATURE_TYPE_ACCELEROMETER \<longrightarrow>
      Equivalent a b =
        (PositiveX a = PositiveX b \<and> PositiveY a = PositiveY b \<and> PositiveZ a = PositiveZ b)) \<and>
   (Type b = JOYSTICK_FEATURE_TYPE_OTHER k \<longrightarrow> \<not> Equivalent a b) \<and>
   Equivalent (a\<lparr>Name := n\<rparr>) (b\<lparr>Name := n'\<rparr>) = Equivalent a b"
  by (auto simp: Equivalent_def split: JOYSTICK_FEATURE_TYPE.splits)

theorem Equivalent_cases_witness:
  "Equivalent (Scalar 1 ''A'') (Scalar 1 ''Accelerate'') \<and>
   \<not> Equivalent (Scalar 1 ''A'') (Scalar 2 ''A'') \<and>
   \<not> Equivalent (Scalar 1 ''A'') (Motor 1 ''A'') \<and>
   Equivalent (Motor 3 ''Rumble'') (Motor 3 ''Shake'') \<and>
   Equivalent (AnalogStick 1 2 3 4 ''Stick'') (AnalogStick 1 2 3 4 ''Wheel'') \<and>
   \<not> Equivalent (AnalogStick 1 2 3 4 ''Stick'') (AnalogStick 1 2 3 5 ''Stick'') \<and>
   Equivalent (Accelerometer 1 2 3 ''Tilt'') (Accelerometer 1 2 3 ''Lean'') \<and>
   \<not> Equivalent (Accelerometer 1 2 3 ''Tilt'') (Accelerometer 1 2 4 ''Tilt'') \<and>
   \<not> Equivalent (OtherFeature 7 1 ''Key'') (OtherFeature 7 1 ''Key'')"
  using Equivalent_cases [of "Scalar 1 ''A''" "Scalar 1 ''Accelerate''" 0]
    Equivalent_cases [of "Scalar 1 ''A''" "Scalar 2 ''A''" 0]
    Equivalent_cases [of "Scalar 1 ''A''" "Motor 1 ''A''" 0]
    Equivalent_cases [of "Motor 3 ''Rumble''" "Motor 3 ''Shake''" 0]
    Equivalent_cases [of "AnalogStick 1 2 3 4 ''Stick''" "AnalogStick 1 2 3 4 ''Wheel''" 0]
    Equivalent_cases [of "AnalogStick 1 2 3 4 ''Stick''" "AnalogStick 1 2 3 5 ''Stick''" 0]
    Equivalent_cases [of "Accelerometer 1 2 3 ''Tilt''" "Accelerometer 1 2 3 ''Lean''" 0]
    Equivalent_cases [of "Accelerometer 1 2 3 ''Tilt''" "Accelerometer 1 2 4 ''Tilt''" 0]
    Equivalent_cases [of "OtherFeature 7 1 ''Key''" "OtherFeature 7 1 ''Key''" 7]
  by (simp add: Scalar_def Motor_def AnalogStick_def Accelerometer_def OtherFeature_def)

section \<open>Adding one controller pair to a model\<close>

lemma find_SomeD: "find P xs = Some x \<Longrightarrow> P x \<and> x \<in> set xs"
  by (induction xs) (auto split: if_splits)

lemma AddControllerMap_loop_no_match:
  "\<forall>f\<in>set featuresFrom. \<forall>t\<in>set featuresTo. \<not> Equivalent f t \<Longrightarrow>
   AddControllerMap_loop featuresFrom featuresTo acc = acc"
  by (induction featuresFrom featuresTo acc rule: AddControllerMap_loop.induct)
     (auto split: option.splits dest: find_SomeD)

text \<open>
  C3, as the code has it. For a pair in canonical order and feature vectors without any
  equivalent features, \<^verbatim>\<open>AddControllerMap\<close> returns false and does not call \<^verbatim>\<open>Reset\<close>: the
  cached state and every stored count are as before. The subscript on the controller map
  has still run, so a pair that had no entry now has an empty one.
\<close>

theorem AddControllerMap_no_match:
  assumes "controllerFrom < controllerTo"
    and "\<forall>f\<in>set featuresFrom. \<forall>t\<in>set featuresTo. \<not> Equivalent f t"
  shows "AddControllerMap model controllerFrom featuresFrom controllerTo featuresTo =
         Some (False,
           model\<lparr>m_map := (m_map model)
             (\<lparr>fromController = controllerFrom, toController = controllerTo\<rparr> \<mapsto>
                (case m_map model \<lparr>fromController = controllerFrom, toController = controllerTo\<rparr> of
                   None \<Rightarrow> [] | Some featureMap \<Rightarrow> featureMap))\<rparr>)"
  using assms
  by (simp add: AddControllerMap_def AddControllerMap_loop_no_match subscript_def Let_def)

theorem AddControllerMap_no_match_witness:
  "''Gamepad'' < ''Wheel'' \<and>
   \<not> Equivalent (Scalar 1 ''A'') (Scalar 2 ''Accelerate'') \<and>
   AddControllerMap model1 ''Gamepad'' [Scalar 1 ''A''] ''Wheel'' [Scalar 2 ''Accelerate''] =
     Some (False, model1)"
  using AddControllerMap_no_match [of "''Gamepad''" "''Wheel''" "[Scalar 1 ''A'']"
      "[Scalar 2 ''Accelerate'']" model1]
  by (simp add: model1_def needle1_def Equivalent_def Scalar_def)

text \<open>
  On a model without an entry for the pair the call returns false and the model is not
  as before: it has a new, empty entry for the pair.
\<close>

theorem AddControllerMap_no_match_counterexample:
  "AddControllerMap emptyModel ''Gamepad'' [Scalar 1 ''A''] ''Wheel'' [Scalar 2 ''Accelerate''] =
     Some (False, \<lparr>m_map = [needle1 \<mapsto> []], derived = Map.empty\<rparr>) \<and>
   m_map emptyModel needle1 = None"
  by (simp add: AddControllerMap_def emptyModel_def needle1_def subscript_def Equivalent_def
      Scalar_def Let_def)

section \<open>Ingesting a device\<close>

lemma AddControllerMap_total:
  "controllerFrom < controllerTo \<Longrightarrow>
   \<exists>r. AddControllerMap model controllerFrom featuresFrom controllerTo featuresTo = Some r"
  by (simp add: AddControllerMap_def Let_def split: prod.splits)

lemma OnAdd_from_total:
  "\<forall>itFrom\<in>set entries. fst itFrom < fst itTo \<Longrightarrow>
   \<exists>r. OnAdd_from itTo entries models = Some r"
proof (induction entries arbitrary: models)
  case Nil
  then show ?case by simp
next
  case (Cons itFrom rest)
  obtain familyModel geometryModel where m: "models = (familyModel, geometryModel)"
    by (cases models)
  from Cons.prems have lt: "fst itFrom < fst itTo" by simp
  obtain cf familyModel' where f:
    "AddControllerMap familyModel (fst itFrom) (snd itFrom) (fst itTo) (snd itTo) =
       Some (cf, familyModel')"
    using AddControllerMap_total [OF lt] by fastforce
  obtain cg geometryModel' where g:
    "AddControllerMap geometryModel (fst itFrom) (snd itFrom) (fst itTo) (snd itTo) =
       Some (cg, geometryModel')"
    using AddControllerMap_total [OF lt] by fastforce
  from Cons.prems have "\<forall>itFrom\<in>set rest. fst itFrom < fst itTo" by simp
  from Cons.IH [OF this] show ?case by (simp add: m f g)
qed

lemma OnAdd_to_total: "\<exists>r. OnAdd_to buttonMap entries models = Some r"
proof (induction entries arbitrary: models)
  case Nil
  then show ?case by simp
next
  case (Cons itTo rest)
  have "\<forall>itFrom\<in>set (takeWhile (\<lambda>itFrom. fst itFrom < fst itTo) buttonMap).
          fst itFrom < fst itTo"
    by (auto dest: set_takeWhileD)
  from OnAdd_from_total [OF this] obtain models' where
    "OnAdd_from itTo (takeWhile (\<lambda>itFrom. fst itFrom < fst itTo) buttonMap) models =
       Some models'"
    by blast
  with Cons.IH [of models'] show ?case by simp
qed

lemma OnAdd_total: "\<exists>mapper'. OnAdd mapper driverInfo buttonMap = Some mapper'"
proof -
  obtain r where
    "OnAdd_to buttonMap buttonMap
       (subscript (m_familyModels mapper) emptyModel (familyOf (deref driverInfo)),
        subscript (m_geometryModels mapper) emptyModel (geometryOf (deref driverInfo))) = Some r"
    using OnAdd_to_total by blast
  then show ?thesis
    by (cases r) (simp add: OnAdd_def Let_def)
qed

lemma OnAdd_observed:
  "identity driverInfo \<in> m_observedDevices mapper \<Longrightarrow>
   OnAdd mapper driverInfo buttonMap = Some mapper"
  by (simp add: OnAdd_def)

lemma OnAdd_records_device:
  "OnAdd mapper driverInfo buttonMap = Some mapper' \<Longrightarrow>
   identity driverInfo \<in> m_observedDevices mapper'"
  by (auto simp: OnAdd_def Let_def split: if_splits option.splits prod.splits)

text \<open>
  C5. Ingesting a device and then ingesting a device pointer of the same identity again,
  with any button map, returns the mapper of the first call unchanged: no count, no
  cached state, no registry entry differs. A device that is already in the set of
  observed devices is skipped before anything else is done.
\<close>

theorem OnAdd_idempotent:
  assumes "identity driverInfo' = identity driverInfo"
  shows "(\<exists>mapper'. OnAdd mapper driverInfo buttonMap = Some mapper' \<and>
            OnAdd mapper' driverInfo' buttonMap' = Some mapper') \<and>
         (identity driverInfo \<in> m_observedDevices mapper \<longrightarrow>
            OnAdd mapper driverInfo' buttonMap' = Some mapper)"
proof
  obtain mapper' where first: "OnAdd mapper driverInfo buttonMap = Some mapper'"
    using OnAdd_total by blast
  then have "identity driverInfo' \<in> m_observedDevices mapper'"
    using assms by (simp add: OnAdd_records_device)
  then have "OnAdd mapper' driverInfo' buttonMap' = Some mapper'"
    by (rule OnAdd_observed)
  with first show "\<exists>mapper'. OnAdd mapper driverInfo buttonMap = Some mapper' \<and>
      OnAdd mapper' driverInfo' buttonMap' = Some mapper'"
    by blast
next
  show "identity driverInfo \<in> m_observedDevices mapper \<longrightarrow>
      OnAdd mapper driverInfo' buttonMap' = Some mapper"
    using assms by (simp add: OnAdd_observed)
qed

theorem OnAdd_idempotent_witness:
  "identity (D1\<lparr>deref := J3\<rparr>) = identity D1 \<and>
   OnAdd (the (OnAdd emptyMapper D1 map1)) (D1\<lparr>deref := J3\<rparr>) map2 =
     OnAdd emptyMapper D1 map1 \<and>
   identity D1 \<in> m_observedDevices mapper1 \<and>
   OnAdd mapper1 (D1\<lparr>deref := J3\<rparr>) map2 = Some mapper1"
  using OnAdd_idempotent [of "D1\<lparr>deref := J3\<rparr>" D1 emptyMapper map1 map2]
    OnAdd_idempotent [of "D1\<lparr>deref := J3\<rparr>" D1 mapper1 map1 map2]
  by (auto simp: mapper1_def D1_def)

section \<open>Answering a query\<close>

lemma TransformFeatures_entries_append:
  "TransformFeatures_entries bSwap entries features out =
   out @ TransformFeatures_entries bSwap entries features []"
proof (induction entries arbitrary: out)
  case Nil
  then show ?case by simp
next
  case (Cons entry rest)
  obtain key n where e: "entry = (key, n)" by (cases entry)
  show ?case
  proof (cases "find (\<lambda>feature. Name feature =
      (if bSwap then toFeature key else fromFeature key)) features")
    case None
    then show ?thesis using Cons.IH [of out] by (simp add: e)
  next
    case (Some feature)
    let ?new = "feature\<lparr>Name := (if bSwap then fromFeature key else toFeature key)\<rparr>"
    have "TransformFeatures_entries bSwap (entry # rest) features out =
          TransformFeatures_entries bSwap rest features (out @ [?new])"
      using Some by (simp add: e)
    also have "\<dots> = (out @ [?new]) @ TransformFeatures_entries bSwap rest features []"
      by (rule Cons.IH)
    also have "\<dots> = out @ TransformFeatures_entries bSwap rest features [?new]"
      using Cons.IH [of "[?new]"] by simp
    also have "\<dots> = out @ TransformFeatures_entries bSwap (entry # rest) features []"
      using Some by (simp add: e)
    finally show ?thesis .
  qed
qed

lemma TransformFeatures_output:
  "snd (TransformFeatures mapper driverInfo fromC toC features out) =
   (if out @ modelFeatures (familyModelOf mapper driverInfo) fromC toC features \<noteq> []
    then out @ modelFeatures (familyModelOf mapper driverInfo) fromC toC features
    else modelFeatures (geometryModelOf mapper driverInfo) fromC toC features)"
proof -
  let ?b = "toC \<le> fromC"
  let ?n = "\<lparr>fromController = (if ?b then toC else fromC),
             toController = (if ?b then fromC else toC)\<rparr>"
  have f: "TransformFeatures_entries ?b
             (GetNormalizedFeatures (familyModelOf mapper driverInfo) ?n ?b) features out =
           out @ modelFeatures (familyModelOf mapper driverInfo) fromC toC features"
    unfolding modelFeatures_def needleOf_def by (rule TransformFeatures_entries_append)
  show ?thesis
    unfolding TransformFeatures_def Let_def snd_conv TransformFeatures_models.simps
      familyModelOf_def [symmetric] geometryModelOf_def [symmetric] f
    by (simp add: modelFeatures_def needleOf_def)
qed

lemma TransformFeatures_mapper:
  "fst (TransformFeatures mapper driverInfo fromC toC features out) =
   mapper\<lparr>m_familyModels :=
            (m_familyModels mapper)(familyOf driverInfo \<mapsto> familyModelOf mapper driverInfo),
          m_geometryModels :=
            (m_geometryModels mapper)(geometryOf driverInfo \<mapsto> geometryModelOf mapper driverInfo)\<rparr>"
  by (simp add: TransformFeatures_def Let_def familyModelOf_def geometryModelOf_def)

lemma familyModelOf_geometry_update [simp]:
  "familyModelOf (mapper\<lparr>m_geometryModels := g\<rparr>) driverInfo = familyModelOf mapper driverInfo"
  by (simp add: familyModelOf_def)

text \<open>
  C10. \<^verbatim>\<open>TransformFeatures\<close> appends to the output vector it is given and tests that whole
  vector before it goes on to the geometry model. Called with an output vector that is not
  empty, it returns that vector followed by what the family model contributes, which may
  be nothing; the geometry models play no part in the result, whatever they hold.
\<close>

theorem TransformFeatures_appends:
  assumes "out \<noteq> []"
  shows "snd (TransformFeatures mapper driverInfo fromC toC features out) =
           out @ modelFeatures (familyModelOf mapper driverInfo) fromC toC features \<and>
         snd (TransformFeatures (mapper\<lparr>m_geometryModels := geometryModels\<rparr>) driverInfo
                fromC toC features out) =
           snd (TransformFeatures mapper driverInfo fromC toC features out)"
  using assms by (simp add: TransformFeatures_output)

lemma modelFeatures_emptyModel [simp]: "modelFeatures emptyModel fromC toC features = []"
  by (simp add: modelFeatures_def GetNormalizedFeatures_def emptyModel_def)

lemma familyModelOf_mapper1_J2: "familyModelOf mapper1 J2 = emptyModel"
  by (simp add: familyModelOf_def mapper1_def J2_def D1_def familyOf_def subscript_def)

lemma geometryModelOf_mapper1_J2: "geometryModelOf mapper1 J2 = learned1"
  by (simp add: geometryModelOf_def mapper1_def J2_def D1_def geometryOf_def subscript_def)

lemma modelFeatures_learned1:
  "modelFeatures learned1 ''Gamepad'' ''Wheel'' [Scalar 1 ''A''] = [Scalar 1 ''Accelerate'']"
  by (simp add: modelFeatures_def GetNormalizedFeatures_def learned1_def needleOf_def needle1_def
      entry1_def Scalar_def)

theorem TransformFeatures_appends_witness:
  "[Scalar 9 ''X''] \<noteq> [] \<and>
   snd (TransformFeatures mapper1 J2 ''Gamepad'' ''Wheel'' [Scalar 1 ''A''] [Scalar 9 ''X'']) =
     [Scalar 9 ''X''] \<and>
   snd (TransformFeatures (mapper1\<lparr>m_geometryModels := Map.empty\<rparr>) J2 ''Gamepad'' ''Wheel''
          [Scalar 1 ''A''] [Scalar 9 ''X'']) =
     [Scalar 9 ''X''] \<and>
   modelFeatures (geometryModelOf mapper1 J2) ''Gamepad'' ''Wheel'' [Scalar 1 ''A''] =
     [Scalar 1 ''Accelerate'']"
  using TransformFeatures_appends [where out = "[Scalar 9 ''X'']" and mapper = mapper1
      and driverInfo = J2 and fromC = "''Gamepad''" and toC = "''Wheel''"
      and features = "[Scalar 1 ''A'']" and geometryModels = Map.empty]
  by (simp add: familyModelOf_mapper1_J2 geometryModelOf_mapper1_J2 modelFeatures_learned1
      del: One_nat_def)

lemma OnAdd_to_short:
  "length buttonMap < 2 \<Longrightarrow> OnAdd_to buttonMap buttonMap models = Some models"
proof (cases buttonMap)
  case Nil
  then show ?thesis by simp
next
  case (Cons itTo rest)
  assume "length buttonMap < 2"
  with Cons have "rest = []" by simp
  with Cons show ?thesis by simp
qed

lemma OnAdd_models_exist:
  assumes "OnAdd mapper driverInfo buttonMap = Some mapper'"
    and "identity driverInfo \<notin> m_observedDevices mapper"
  shows "familyOf (deref driverInfo) \<in> dom (m_familyModels mapper') \<and>
         geometryOf (deref driverInfo) \<in> dom (m_geometryModels mapper')"
  using assms by (auto simp: OnAdd_def Let_def split: option.splits prod.splits)

text \<open>
  C9. \<^verbatim>\<open>TransformFeatures\<close> changes the mapper: after the call both registries have a model
  for the device, and a key that was absent now holds an empty model, whatever the call
  returns. \<^verbatim>\<open>OnAdd\<close> of a device that was not observed before leaves both registries with
  a model for the device too; for a button map with fewer than two entries, where no
  controller pair is enumerated, that is its only effect besides recording the device.
\<close>

theorem TransformFeatures_creates_models:
  "familyOf driverInfo \<in>
     dom (m_familyModels (fst (TransformFeatures mapper driverInfo fromC toC features out))) \<and>
   geometryOf driverInfo \<in>
     dom (m_geometryModels (fst (TransformFeatures mapper driverInfo fromC toC features out))) \<and>
   (familyOf driverInfo \<notin> dom (m_familyModels mapper) \<longrightarrow>
      m_familyModels (fst (TransformFeatures mapper driverInfo fromC toC features out))
        (familyOf driverInfo) = Some emptyModel) \<and>
   (geometryOf driverInfo \<notin> dom (m_geometryModels mapper) \<longrightarrow>
      m_geometryModels (fst (TransformFeatures mapper driverInfo fromC toC features out))
        (geometryOf driverInfo) = Some emptyModel) \<and>
   (identity device \<notin> m_observedDevices mapper \<longrightarrow>
      (\<exists>mapper'. OnAdd mapper device buttonMap = Some mapper' \<and>
         familyOf (deref device) \<in> dom (m_familyModels mapper') \<and>
         geometryOf (deref device) \<in> dom (m_geometryModels mapper'))) \<and>
   (identity device \<notin> m_observedDevices mapper \<and> length buttonMap < 2 \<longrightarrow>
      OnAdd mapper device buttonMap =
        Some \<lparr>m_observedDevices = insert (identity device) (m_observedDevices mapper),
              m_familyModels = (m_familyModels mapper)
                (familyOf (deref device) \<mapsto> familyModelOf mapper (deref device)),
              m_geometryModels = (m_geometryModels mapper)
                (geometryOf (deref device) \<mapsto> geometryModelOf mapper (deref device))\<rparr>)"
proof -
  have t: "familyOf driverInfo \<in>
       dom (m_familyModels (fst (TransformFeatures mapper driverInfo fromC toC features out))) \<and>
     geometryOf driverInfo \<in>
       dom (m_geometryModels (fst (TransformFeatures mapper driverInfo fromC toC features out))) \<and>
     (familyOf driverInfo \<notin> dom (m_familyModels mapper) \<longrightarrow>
        m_familyModels (fst (TransformFeatures mapper driverInfo fromC toC features out))
          (familyOf driverInfo) = Some emptyModel) \<and>
     (geometryOf driverInfo \<notin> dom (m_geometryModels mapper) \<longrightarrow>
        m_geometryModels (fst (TransformFeatures mapper driverInfo fromC toC features out))
          (geometryOf driverInfo) = Some emptyModel)"
    by (auto simp: TransformFeatures_mapper familyModelOf_def geometryModelOf_def subscript_def
        split: option.splits)
  have a: "identity device \<notin> m_observedDevices mapper \<longrightarrow>
      (\<exists>mapper'. OnAdd mapper device buttonMap = Some mapper' \<and>
         familyOf (deref device) \<in> dom (m_familyModels mapper') \<and>
         geometryOf (deref device) \<in> dom (m_geometryModels mapper'))"
    using OnAdd_total [of mapper device buttonMap] OnAdd_models_exist by blast
  have s: "identity device \<notin> m_observedDevices mapper \<and> length buttonMap < 2 \<longrightarrow>
      OnAdd mapper device buttonMap =
        Some \<lparr>m_observedDevices = insert (identity device) (m_observedDevices mapper),
              m_familyModels = (m_familyModels mapper)
                (familyOf (deref device) \<mapsto> familyModelOf mapper (deref device)),
              m_geometryModels = (m_geometryModels mapper)
                (geometryOf (deref device) \<mapsto> geometryModelOf mapper (deref device))\<rparr>"
    by (simp add: OnAdd_def Let_def OnAdd_to_short familyModelOf_def geometryModelOf_def)
  from t a s show ?thesis by blast
qed

theorem TransformFeatures_creates_models_witness:
  "familyOf J2 \<notin> dom (m_familyModels emptyMapper) \<and>
   geometryOf J2 \<notin> dom (m_geometryModels emptyMapper) \<and>
   m_familyModels (fst (TransformFeatures emptyMapper J2 ''Gamepad'' ''Wheel'' [Scalar 1 ''A''] []))
     (familyOf J2) = Some emptyModel \<and>
   m_geometryModels (fst (TransformFeatures emptyMapper J2 ''Gamepad'' ''Wheel'' [Scalar 1 ''A''] []))
     (geometryOf J2) = Some emptyModel \<and>
   snd (TransformFeatures emptyMapper J2 ''Gamepad'' ''Wheel'' [Scalar 1 ''A''] []) = [] \<and>
   identity D3 \<notin> m_observedDevices emptyMapper \<and>
   length [(''Gamepad'', [Scalar 1 ''A''])] < 2 \<and>
   OnAdd emptyMapper D3 [(''Gamepad'', [Scalar 1 ''A''])] =
     Some \<lparr>m_observedDevices = {3},
           m_familyModels = [familyOf J2 \<mapsto> emptyModel],
           m_geometryModels = [geometryOf J2 \<mapsto> emptyModel]\<rparr>"
  using TransformFeatures_creates_models [where mapper = emptyMapper and driverInfo = J2
      and fromC = "''Gamepad''" and toC = "''Wheel''" and features = "[Scalar 1 ''A'']"
      and out = "[]" and device = D3 and buttonMap = "[(''Gamepad'', [Scalar 1 ''A''])]"]
  by (simp add: emptyMapper_def D3_def familyModelOf_def geometryModelOf_def subscript_def
      TransformFeatures_output)

text \<open>
  C7. With an empty output vector passed in, the family model is consulted first. If it
  contributes anything, even for only some of the features, the result is exactly its
  contribution and does not depend on the geometry registry. If it contributes nothing,
  in particular if it has no entries for the canonical pair, the result is the
  contribution of the geometry model.
\<close>

theorem TransformFeatures_family_first:
  "(modelFeatures (familyModelOf mapper driverInfo) fromC toC features \<noteq> [] \<longrightarrow>
      snd (TransformFeatures mapper driverInfo fromC toC features []) =
        modelFeatures (familyModelOf mapper driverInfo) fromC toC features \<and>
      (\<forall>geometryModels.
         snd (TransformFeatures (mapper\<lparr>m_geometryModels := geometryModels\<rparr>) driverInfo
                fromC toC features []) =
           modelFeatures (familyModelOf mapper driverInfo) fromC toC features)) \<and>
   (modelFeatures (familyModelOf mapper driverInfo) fromC toC features = [] \<longrightarrow>
      snd (TransformFeatures mapper driverInfo fromC toC features []) =
        modelFeatures (geometryModelOf mapper driverInfo) fromC toC features) \<and>
   (GetNormalizedFeatures (familyModelOf mapper driverInfo) (needleOf fromC toC) (fromC \<ge> toC) = []
      \<longrightarrow>
      snd (TransformFeatures mapper driverInfo fromC toC features []) =
        modelFeatures (geometryModelOf mapper driverInfo) fromC toC features)"
  by (simp add: TransformFeatures_output modelFeatures_def)

lemma OnAdd_D1: "OnAdd emptyMapper D1 map1 = Some mapper1"
  by (simp add: OnAdd_def emptyMapper_def D1_def map1_def subscript_def Let_def
      AddControllerMap_def emptyModel_def Equivalent_def Scalar_def Reset_def
      mapper1_def learned1_def needle1_def entry1_def)

lemma OnAdd_D3: "OnAdd mapper1 D3 map2 = Some mapper2"
  by (simp add: OnAdd_def mapper1_def D1_def D3_def J2_def map2_def subscript_def Let_def
      familyOf_def geometryOf_def AddControllerMap_def emptyModel_def Equivalent_def Scalar_def
      Reset_def mapper2_def learned1_def learned2_def learned12_def needle1_def entry1_def
      entry2_def FeatureMapItem_less_def fun_upd_twist)

theorem TransformFeatures_family_first_witness:
  "modelFeatures (familyModelOf mapper2 (deref D1)) ''Gamepad'' ''Wheel''
     [Scalar 1 ''A'', Scalar 2 ''B''] = [Scalar 1 ''Accelerate''] \<and>
   modelFeatures (geometryModelOf mapper2 (deref D1)) ''Gamepad'' ''Wheel''
     [Scalar 1 ''A'', Scalar 2 ''B''] = [Scalar 1 ''Accelerate'', Scalar 2 ''Brake''] \<and>
   snd (TransformFeatures mapper2 (deref D1) ''Gamepad'' ''Wheel''
          [Scalar 1 ''A'', Scalar 2 ''B''] []) = [Scalar 1 ''Accelerate''] \<and>
   GetNormalizedFeatures (familyModelOf mapper1 J2) (needleOf ''Gamepad'' ''Wheel'')
     (''Gamepad'' \<ge> ''Wheel'') = [] \<and>
   snd (TransformFeatures mapper1 J2 ''Gamepad'' ''Wheel'' [Scalar 1 ''A''] []) =
     [Scalar 1 ''Accelerate'']"
proof -
  have f2: "familyModelOf mapper2 (deref D1) = learned1"
    by (simp add: familyModelOf_def mapper2_def D1_def J2_def familyOf_def subscript_def)
  have g2: "geometryModelOf mapper2 (deref D1) = learned12"
    by (simp add: geometryModelOf_def mapper2_def subscript_def)
  have m1: "modelFeatures learned1 ''Gamepad'' ''Wheel'' [Scalar 1 ''A'', Scalar 2 ''B''] =
      [Scalar 1 ''Accelerate'']"
    by (simp add: modelFeatures_def GetNormalizedFeatures_def learned1_def needleOf_def
        needle1_def entry1_def Scalar_def)
  have m12: "modelFeatures learned12 ''Gamepad'' ''Wheel'' [Scalar 1 ''A'', Scalar 2 ''B''] =
      [Scalar 1 ''Accelerate'', Scalar 2 ''Brake'']"
    by (simp add: modelFeatures_def GetNormalizedFeatures_def learned12_def needleOf_def
        needle1_def entry1_def entry2_def Scalar_def)
  have e: "\<And>needle bSwap. GetNormalizedFeatures emptyModel needle bSwap = []"
    by (simp add: GetNormalizedFeatures_def emptyModel_def)
  show ?thesis
    using TransformFeatures_family_first [of mapper2 "deref D1" "''Gamepad''" "''Wheel''"
        "[Scalar 1 ''A'', Scalar 2 ''B'']"]
      TransformFeatures_family_first [of mapper1 J2 "''Gamepad''" "''Wheel''"
        "[Scalar 1 ''A'']"]
    by (simp add: f2 g2 m1 m12 e familyModelOf_mapper1_J2 geometryModelOf_mapper1_J2
        modelFeatures_learned1 del: One_nat_def)
qed

section \<open>The controller pairs of a button map\<close>

lemma OnAdd_from_feed:
  "OnAdd_from itTo entries models = feed (map (\<lambda>itFrom. (itFrom, itTo)) entries) models"
proof (induction entries arbitrary: models)
  case Nil
  then show ?case by simp
next
  case (Cons itFrom rest)
  obtain familyModel geometryModel where "models = (familyModel, geometryModel)"
    by (cases models)
  then show ?case
    by (simp add: Cons.IH split: option.splits prod.splits)
qed

lemma feed_append:
  "feed (ps @ qs) models =
   (case feed ps models of None \<Rightarrow> None | Some models' \<Rightarrow> feed qs models')"
proof (induction ps arbitrary: models)
  case Nil
  then show ?case by simp
next
  case (Cons p ps)
  obtain itFrom itTo where p: "p = (itFrom, itTo)" by (cases p)
  obtain familyModel geometryModel where m: "models = (familyModel, geometryModel)"
    by (cases models)
  show ?case
    by (simp add: p m Cons.IH split: option.splits prod.splits)
qed

lemma OnAdd_to_feed_general:
  "OnAdd_to buttonMap entries models =
   feed (concat (map (\<lambda>itTo. map (\<lambda>itFrom. (itFrom, itTo))
                               (takeWhile (\<lambda>itFrom. fst itFrom < fst itTo) buttonMap))
                     entries)) models"
  by (induction entries arbitrary: models)
     (simp_all add: feed_append OnAdd_from_feed split: option.splits)

lemma OnAdd_to_feed: "OnAdd_to buttonMap buttonMap models = feed (enumerated buttonMap) models"
  by (simp add: enumerated_def OnAdd_to_feed_general)

lemma AddControllerMap_m_map:
  assumes "AddControllerMap model controllerFrom featuresFrom controllerTo featuresTo =
           Some (changed, model')"
  shows "controllerFrom < controllerTo"
    and "dom (m_map model') =
         insert \<lparr>fromController = controllerFrom, toController = controllerTo\<rparr> (dom (m_map model))"
    and "\<And>key. key \<noteq> \<lparr>fromController = controllerFrom, toController = controllerTo\<rparr> \<Longrightarrow>
           m_map model' key = m_map model key"
  using assms
  by (auto simp: AddControllerMap_def Let_def Reset_def split: if_splits prod.splits)

lemma feed_dom:
  "feed ps (familyModel, geometryModel) = Some (familyModel', geometryModel') \<Longrightarrow>
   dom (m_map familyModel') = dom (m_map familyModel) \<union> keyOf ` set ps \<and>
   dom (m_map geometryModel') = dom (m_map geometryModel) \<union> keyOf ` set ps \<and>
   (\<forall>p\<in>set ps. fromController (keyOf p) < toController (keyOf p))"
proof (induction ps arbitrary: familyModel geometryModel)
  case Nil
  then show ?case by simp
next
  case (Cons p ps)
  obtain itFrom itTo where p: "p = (itFrom, itTo)" by (cases p)
  from Cons.prems obtain cf f1 cg g1 where
    f: "AddControllerMap familyModel (fst itFrom) (snd itFrom) (fst itTo) (snd itTo) = Some (cf, f1)"
    and g: "AddControllerMap geometryModel (fst itFrom) (snd itFrom) (fst itTo) (snd itTo) =
      Some (cg, g1)"
    and rest: "feed ps (f1, g1) = Some (familyModel', geometryModel')"
    by (auto simp: p split: option.splits prod.splits)
  from Cons.IH [OF rest] AddControllerMap_m_map(1,2) [OF f] AddControllerMap_m_map(2) [OF g]
  show ?case
    by (auto simp: p keyOf_def)
qed

lemma feed_canonical:
  assumes "feed ps (familyModel, geometryModel) = Some (familyModel', geometryModel')"
    and "canonicalKeys familyModel" and "canonicalKeys geometryModel"
  shows "canonicalKeys familyModel' \<and> canonicalKeys geometryModel'"
  using feed_dom [OF assms(1)] assms(2,3)
  by (auto simp: canonicalKeys_def)

lemma ran_updD: "x \<in> ran (m(k \<mapsto> v)) \<Longrightarrow> x = v \<or> x \<in> ran m"
  by (auto simp: ran_def split: if_splits)

lemma canonicalKeys_emptyModel [simp]: "canonicalKeys emptyModel"
  by (simp add: canonicalKeys_def emptyModel_def)

lemma canonicalKeys_subscript:
  "\<forall>model\<in>ran registry. canonicalKeys model \<Longrightarrow>
   canonicalKeys (subscript registry emptyModel key)"
  by (auto simp: subscript_def ran_def split: option.splits)

lemma OnAdd_canonical:
  assumes "OnAdd mapper device buttonMap = Some mapper'" and "mapperCanonical mapper"
  shows "mapperCanonical mapper'"
proof (cases "identity device \<in> m_observedDevices mapper")
  case True
  with assms show ?thesis by (simp add: OnAdd_def)
next
  case False
  let ?f = "subscript (m_familyModels mapper) emptyModel (familyOf (deref device))"
  let ?g = "subscript (m_geometryModels mapper) emptyModel (geometryOf (deref device))"
  from assms(1) False obtain f' g' where
    fed: "feed (enumerated buttonMap) (?f, ?g) = Some (f', g')"
    and m: "mapper' =
      \<lparr>m_observedDevices = insert (identity device) (m_observedDevices mapper),
       m_familyModels = (m_familyModels mapper)(familyOf (deref device) \<mapsto> f'),
       m_geometryModels = (m_geometryModels mapper)(geometryOf (deref device) \<mapsto> g')\<rparr>"
    by (auto simp: OnAdd_def Let_def OnAdd_to_feed split: option.splits prod.splits)
  from assms(2) have "canonicalKeys ?f" "canonicalKeys ?g"
    by (simp_all add: mapperCanonical_def canonicalKeys_subscript)
  with fed have "canonicalKeys f' \<and> canonicalKeys g'"
    by (rule feed_canonical)
  with assms(2) show ?thesis
    by (auto simp: m mapperCanonical_def dest: ran_updD)
qed

lemma TransformFeatures_canonical:
  assumes "mapperCanonical mapper"
  shows "mapperCanonical (fst (TransformFeatures mapper driverInfo fromC toC features out))"
proof -
  from assms have "canonicalKeys (familyModelOf mapper driverInfo)"
    "canonicalKeys (geometryModelOf mapper driverInfo)"
    by (simp_all add: mapperCanonical_def familyModelOf_def geometryModelOf_def
        canonicalKeys_subscript)
  with assms show ?thesis
    by (auto simp: TransformFeatures_mapper mapperCanonical_def dest: ran_updD)
qed

lemma step_total: "\<exists>mapper'. step mapper c = Some mapper'"
  by (cases c) (simp_all add: OnAdd_total)

lemma step_canonical:
  "step mapper c = Some mapper' \<Longrightarrow> mapperCanonical mapper \<Longrightarrow> mapperCanonical mapper'"
  by (cases c) (auto simp: OnAdd_canonical TransformFeatures_canonical)

lemma run_canonical:
  "mapperCanonical mapper \<Longrightarrow>
   \<exists>mapper'. run calls mapper = Some mapper' \<and> mapperCanonical mapper'"
proof (induction calls arbitrary: mapper)
  case Nil
  then show ?case by simp
next
  case (Cons c calls)
  obtain mapper1 where s: "step mapper c = Some mapper1"
    using step_total by blast
  with Cons.prems have "mapperCanonical mapper1" by (simp add: step_canonical)
  from Cons.IH [OF this] s show ?case by simp
qed

lemma mapperCanonical_emptyMapper: "mapperCanonical emptyMapper"
  by (simp add: mapperCanonical_def emptyMapper_def)

lemma wellFormed_snoc:
  "wellFormed (entries @ [itTo]) \<longleftrightarrow>
   wellFormed entries \<and> (\<forall>itFrom\<in>set entries. fst itFrom < fst itTo)"
  by (auto simp: wellFormed_def sorted_wrt_append)

lemma enumerated_snoc:
  assumes "wellFormed (entries @ [itTo])"
  shows "enumerated (entries @ [itTo]) =
         enumerated entries @ map (\<lambda>itFrom. (itFrom, itTo)) entries"
proof -
  from assms have before: "\<forall>itFrom\<in>set entries. fst itFrom < fst itTo"
    by (simp add: wellFormed_snoc)
  have old: "takeWhile (\<lambda>itFrom. fst itFrom < fst t) (entries @ [itTo]) =
      takeWhile (\<lambda>itFrom. fst itFrom < fst t) entries" if "t \<in> set entries" for t
    using that by (intro takeWhile_append1 [of t]) simp_all
  have new: "takeWhile (\<lambda>itFrom. fst itFrom < fst itTo) (entries @ [itTo]) = entries"
    using before by simp
  have m: "map (\<lambda>t. map (\<lambda>itFrom. (itFrom, t))
               (takeWhile (\<lambda>itFrom. fst itFrom < fst t) (entries @ [itTo]))) entries =
        map (\<lambda>t. map (\<lambda>itFrom. (itFrom, t))
               (takeWhile (\<lambda>itFrom. fst itFrom < fst t) entries)) entries"
    by (rule map_cong) (simp_all add: old)
  show ?thesis
    unfolding enumerated_def map_append concat_append m by (simp add: new)
qed

lemma triangle_step: "n * (n - 1) div 2 + n = (n + 1) * n div (2::nat)"
proof (cases n)
  case 0
  then show ?thesis by simp
next
  case (Suc k)
  have "(Suc k + 1) * Suc k = Suc k * k + Suc k * 2" by simp
  then have "(Suc k + 1) * Suc k div 2 = Suc k * k div 2 + Suc k"
    by simp
  with Suc show ?thesis by simp
qed

lemma enumerated_keys:
  "wellFormed buttonMap \<Longrightarrow>
   set (map keyOf (enumerated buttonMap)) =
     {\<lparr>fromController = a, toController = b\<rparr> | a b.
        a \<in> fst ` set buttonMap \<and> b \<in> fst ` set buttonMap \<and> a < b} \<and>
   distinct (map keyOf (enumerated buttonMap)) \<and>
   length (enumerated buttonMap) = length buttonMap * (length buttonMap - 1) div 2"
proof (induction buttonMap rule: rev_induct)
  case Nil
  then show ?case by (simp add: enumerated_def)
next
  case (snoc itTo entries)
  from snoc.prems have wf: "wellFormed entries"
    and before: "\<forall>itFrom\<in>set entries. fst itFrom < fst itTo"
    by (simp_all add: wellFormed_snoc)
  note IH = snoc.IH [OF wf]
  note e = enumerated_snoc [OF snoc.prems]
  have new: "map keyOf (map (\<lambda>itFrom. (itFrom, itTo)) entries) =
      map (\<lambda>a. \<lparr>fromController = a, toController = fst itTo\<rparr>) (map fst entries)"
    by (simp add: keyOf_def comp_def)
  from wf have d: "distinct (map fst entries)"
    by (simp add: wellFormed_def strict_sorted_iff)
  from IH have keys: "set (map keyOf (enumerated entries)) =
      {\<lparr>fromController = a, toController = b\<rparr> | a b.
         a \<in> fst ` set entries \<and> b \<in> fst ` set entries \<and> a < b}"
    by simp
  have s: "set (map keyOf (enumerated (entries @ [itTo]))) =
      {\<lparr>fromController = a, toController = b\<rparr> | a b.
         a \<in> fst ` set (entries @ [itTo]) \<and> b \<in> fst ` set (entries @ [itTo]) \<and> a < b}"
    unfolding e map_append set_append keys new using before by (auto dest: less_asym)
  have fresh: "fst itTo \<notin> fst ` set entries"
    using before by auto
  have dn: "distinct (map (\<lambda>a. \<lparr>fromController = a, toController = fst itTo\<rparr>) (map fst entries))"
    using d by (simp add: distinct_map inj_on_def)
  have disj: "set (map keyOf (enumerated entries)) \<inter>
      set (map (\<lambda>a. \<lparr>fromController = a, toController = fst itTo\<rparr>) (map fst entries)) = {}"
    unfolding keys using fresh by auto
  have dist: "distinct (map keyOf (enumerated (entries @ [itTo])))"
    unfolding e map_append new using IH dn disj by simp
  have len: "length (enumerated (entries @ [itTo])) =
      length (entries @ [itTo]) * (length (entries @ [itTo]) - 1) div 2"
    using IH triangle_step [of "length entries"] by (simp add: e)
  from s dist len show ?case by blast
qed

text \<open>
  C2. From the empty mapper, and from any mapper whose keys are in canonical order, every
  sequence of calls of \<^verbatim>\<open>OnAdd\<close> and \<^verbatim>\<open>TransformFeatures\<close> returns, and in the mapper it
  leaves every key of every model has its first controller strictly before its second.
  The two loops of \<^verbatim>\<open>OnAdd\<close> call \<^verbatim>\<open>AddControllerMap\<close> for the pairs of \<open>enumerated\<close>; for a
  button map with strictly ascending keys these are, each exactly once, the pairs of two
  keys of the map with the smaller key first, \<open>N * (N - 1) div 2\<close> pairs for \<open>N\<close> entries.
\<close>

theorem canonical_order:
  "(\<exists>mapper. run calls emptyMapper = Some mapper \<and> mapperCanonical mapper) \<and>
   (mapperCanonical mapper0 \<longrightarrow>
      (\<exists>mapper. run calls mapper0 = Some mapper \<and> mapperCanonical mapper)) \<and>
   OnAdd_to buttonMap buttonMap models = feed (enumerated buttonMap) models \<and>
   (wellFormed buttonMap \<longrightarrow>
      set (map keyOf (enumerated buttonMap)) =
        {\<lparr>fromController = a, toController = b\<rparr> | a b.
           a \<in> fst ` set buttonMap \<and> b \<in> fst ` set buttonMap \<and> a < b} \<and>
      distinct (map keyOf (enumerated buttonMap)) \<and>
      length (enumerated buttonMap) = length buttonMap * (length buttonMap - 1) div 2)"
  using run_canonical [OF mapperCanonical_emptyMapper, of calls] run_canonical [of mapper0 calls]
    OnAdd_to_feed [of buttonMap models] enumerated_keys [of buttonMap]
  by blast

lemma run_scenario:
  "run [Ingest D1 map1, Transform (deref D1) ''Wheel'' ''Wheel'' [Scalar 1 ''A''] []] emptyMapper =
     Some mapper1"
proof -
  have "fst (TransformFeatures mapper1 (deref D1) ''Wheel'' ''Wheel'' [Scalar 1 ''A''] []) =
      mapper1"
    by (simp add: TransformFeatures_mapper familyModelOf_def geometryModelOf_def subscript_def
        mapper1_def)
  then show ?thesis
    by (simp add: OnAdd_D1)
qed

theorem canonical_order_witness:
  "wellFormed map3 \<and>
   map keyOf (enumerated map3) =
     [\<lparr>fromController = ''Gamepad'', toController = ''Joypad''\<rparr>,
      \<lparr>fromController = ''Gamepad'', toController = ''Wheel''\<rparr>,
      \<lparr>fromController = ''Joypad'', toController = ''Wheel''\<rparr>] \<and>
   distinct (map keyOf (enumerated map3)) \<and>
   length (enumerated map3) = 3 \<and>
   mapperCanonical emptyMapper \<and>
   run [Ingest D1 map1, Transform (deref D1) ''Wheel'' ''Wheel'' [Scalar 1 ''A''] []] emptyMapper =
     Some mapper1 \<and>
   mapperCanonical mapper1 \<and>
   dom (m_map learned1) = {needle1} \<and>
   fromController needle1 < toController needle1"
proof -
  have wf: "wellFormed map3"
    by (simp add: wellFormed_def map3_def)
  have keys: "map keyOf (enumerated map3) =
     [\<lparr>fromController = ''Gamepad'', toController = ''Joypad''\<rparr>,
      \<lparr>fromController = ''Gamepad'', toController = ''Wheel''\<rparr>,
      \<lparr>fromController = ''Joypad'', toController = ''Wheel''\<rparr>]"
    by (simp add: enumerated_def map3_def keyOf_def)
  have dom: "dom (m_map learned1) = {needle1}"
    by (simp add: learned1_def)
  have lt: "fromController needle1 < toController needle1"
    by (simp add: needle1_def)
  note c = canonical_order [where calls = "[Ingest D1 map1,
        Transform (deref D1) ''Wheel'' ''Wheel'' [Scalar 1 ''A''] []]"
      and ?mapper0.0 = emptyMapper and buttonMap = map3
      and models = "(emptyModel, emptyModel)"]
  from c have "\<exists>mapper. run [Ingest D1 map1,
      Transform (deref D1) ''Wheel'' ''Wheel'' [Scalar 1 ''A''] []] emptyMapper = Some mapper \<and>
      mapperCanonical mapper"
    by (rule conjunct1)
  then have mc: "mapperCanonical mapper1"
    unfolding run_scenario by simp
  from c wf have d: "distinct (map keyOf (enumerated map3))"
    and l: "length (enumerated map3) = length map3 * (length map3 - 1) div 2"
    by blast+
  have "length map3 = 3"
    by (simp add: map3_def)
  with l have "length (enumerated map3) = 3"
    by simp
  with wf keys dom lt mc d run_scenario mapperCanonical_emptyMapper show ?thesis by blast
qed

section \<open>Queries without a learned correspondence\<close>

lemma modelFeatures_no_entry:
  "needleOf fromC toC \<notin> dom (m_map model) \<Longrightarrow> modelFeatures model fromC toC features = []"
  by (auto simp: modelFeatures_def GetNormalizedFeatures_def split: option.splits)

lemma TransformFeatures_no_entry:
  assumes "needleOf fromC toC \<notin> dom (m_map (familyModelOf mapper driverInfo))"
    and "needleOf fromC toC \<notin> dom (m_map (geometryModelOf mapper driverInfo))"
  shows "snd (TransformFeatures mapper driverInfo fromC toC features []) = []"
  using assms by (simp add: TransformFeatures_output modelFeatures_no_entry)

lemma TransformFeatures_keeps_models:
  "familyModelOf (fst (TransformFeatures mapper driverInfo fromC toC features out)) j =
     familyModelOf mapper j"
  "geometryModelOf (fst (TransformFeatures mapper driverInfo fromC toC features out)) j =
     geometryModelOf mapper j"
  by (simp_all add: TransformFeatures_mapper familyModelOf_def geometryModelOf_def
      subscript_def)

lemma enumerated_keys_subset:
  assumes "p \<in> set (enumerated buttonMap)"
  shows "fromController (keyOf p) \<in> fst ` set buttonMap \<and>
         toController (keyOf p) \<in> fst ` set buttonMap"
  using assms by (force simp: enumerated_def keyOf_def dest: set_takeWhileD)

lemma OnAdd_models:
  assumes "OnAdd mapper device buttonMap = Some mapper'"
  shows "(familyOf (deref device) \<noteq> familyOf j \<longrightarrow>
            familyModelOf mapper' j = familyModelOf mapper j) \<and>
         (geometryOf (deref device) \<noteq> geometryOf j \<longrightarrow>
            geometryModelOf mapper' j = geometryModelOf mapper j) \<and>
         dom (m_map (familyModelOf mapper' j)) \<subseteq>
           dom (m_map (familyModelOf mapper j)) \<union> keyOf ` set (enumerated buttonMap) \<and>
         dom (m_map (geometryModelOf mapper' j)) \<subseteq>
           dom (m_map (geometryModelOf mapper j)) \<union> keyOf ` set (enumerated buttonMap)"
proof (cases "identity device \<in> m_observedDevices mapper")
  case True
  with assms show ?thesis by (auto simp: OnAdd_def)
next
  case False
  let ?f = "familyModelOf mapper (deref device)"
  let ?g = "geometryModelOf mapper (deref device)"
  from assms False obtain f' g' where
    fed: "feed (enumerated buttonMap) (?f, ?g) = Some (f', g')"
    and m: "mapper' =
      \<lparr>m_observedDevices = insert (identity device) (m_observedDevices mapper),
       m_familyModels = (m_familyModels mapper)(familyOf (deref device) \<mapsto> f'),
       m_geometryModels = (m_geometryModels mapper)(geometryOf (deref device) \<mapsto> g')\<rparr>"
    by (auto simp: OnAdd_def Let_def OnAdd_to_feed familyModelOf_def geometryModelOf_def
        split: option.splits prod.splits)
  note d = feed_dom [OF fed]
  have ff: "familyModelOf mapper' j =
      (if familyOf (deref device) = familyOf j then f' else familyModelOf mapper j)"
    by (simp add: m familyModelOf_def subscript_def)
  have gg: "geometryModelOf mapper' j =
      (if geometryOf (deref device) = geometryOf j then g' else geometryModelOf mapper j)"
    by (simp add: m geometryModelOf_def subscript_def)
  have same: "familyOf (deref device) = familyOf j \<Longrightarrow> familyModelOf mapper j = ?f"
    "geometryOf (deref device) = geometryOf j \<Longrightarrow> geometryModelOf mapper j = ?g"
    by (simp_all add: familyModelOf_def geometryModelOf_def)
  show ?thesis
    using d same by (auto simp: ff gg)
qed

lemma needleOf_keys:
  "fromController (needleOf fromC toC) \<in> S \<and> toController (needleOf fromC toC) \<in> S \<longleftrightarrow>
   fromC \<in> S \<and> toC \<in> S"
  by (auto simp: needleOf_def)

lemma run_models:
  assumes "run calls mapper = Some mapper'"
  shows "((\<forall>(device, buttonMap)\<in>set (ingests calls). familyOf (deref device) \<noteq> familyOf j) \<longrightarrow>
            familyModelOf mapper' j = familyModelOf mapper j) \<and>
         ((\<forall>(device, buttonMap)\<in>set (ingests calls). geometryOf (deref device) \<noteq> geometryOf j) \<longrightarrow>
            geometryModelOf mapper' j = geometryModelOf mapper j) \<and>
         dom (m_map (familyModelOf mapper' j)) \<subseteq>
           dom (m_map (familyModelOf mapper j)) \<union>
           (\<Union>(device, buttonMap)\<in>set (ingests calls). keyOf ` set (enumerated buttonMap)) \<and>
         dom (m_map (geometryModelOf mapper' j)) \<subseteq>
           dom (m_map (geometryModelOf mapper j)) \<union>
           (\<Union>(device, buttonMap)\<in>set (ingests calls). keyOf ` set (enumerated buttonMap))"
  using assms
proof (induction calls arbitrary: mapper)
  case Nil
  then show ?case by simp
next
  case (Cons c calls)
  from Cons.prems obtain mapper1 where s: "step mapper c = Some mapper1"
    and r: "run calls mapper1 = Some mapper'"
    by (auto split: option.splits)
  note IH = Cons.IH [OF r]
  show ?case
  proof (cases c)
    case (Ingest device buttonMap)
    with s have "OnAdd mapper device buttonMap = Some mapper1" by simp
    from OnAdd_models [OF this, of j] IH show ?thesis
      unfolding Ingest by (simp, blast)
  next
    case (Transform driverInfo fromC toC features out)
    with s have "mapper1 = fst (TransformFeatures mapper driverInfo fromC toC features out)"
      by simp
    with IH show ?thesis
      unfolding Transform by (simp add: TransformFeatures_keeps_models)
  qed
qed

lemma run_total: "\<exists>mapper'. run calls mapper = Some mapper'"
proof (induction calls arbitrary: mapper)
  case Nil
  then show ?case by simp
next
  case (Cons c calls)
  obtain mapper1 where "step mapper c = Some mapper1"
    using step_total by blast
  with Cons.IH [of mapper1] show ?case by simp
qed

lemma models_of_emptyMapper [simp]:
  "familyModelOf emptyMapper j = emptyModel" "geometryModelOf emptyMapper j = emptyModel"
  by (simp_all add: familyModelOf_def geometryModelOf_def emptyMapper_def subscript_def)

lemma m_map_emptyModel [simp]: "m_map emptyModel = Map.empty"
  by (simp add: emptyModel_def)

lemma run_unobserved_device:
  assumes "run calls emptyMapper = Some mapper'"
    and "\<forall>(device, buttonMap)\<in>set (ingests calls).
           familyOf (deref device) \<noteq> familyOf j \<and> geometryOf (deref device) \<noteq> geometryOf j"
  shows "snd (TransformFeatures mapper' j fromC toC features []) = []"
proof -
  from assms(2) have
    "\<forall>(device, buttonMap)\<in>set (ingests calls). familyOf (deref device) \<noteq> familyOf j"
    "\<forall>(device, buttonMap)\<in>set (ingests calls). geometryOf (deref device) \<noteq> geometryOf j"
    by auto
  with run_models [OF assms(1), of j]
  have "familyModelOf mapper' j = emptyModel" "geometryModelOf mapper' j = emptyModel"
    by simp_all
  then show ?thesis
    by (simp add: TransformFeatures_no_entry)
qed

lemma run_models_dom:
  assumes "run calls mapper = Some mapper'"
  shows "dom (m_map (familyModelOf mapper' j)) \<subseteq>
           dom (m_map (familyModelOf mapper j)) \<union>
           (\<Union>(device, buttonMap)\<in>set (ingests calls). keyOf ` set (enumerated buttonMap))"
    and "dom (m_map (geometryModelOf mapper' j)) \<subseteq>
           dom (m_map (geometryModelOf mapper j)) \<union>
           (\<Union>(device, buttonMap)\<in>set (ingests calls). keyOf ` set (enumerated buttonMap))"
  using run_models [OF assms, of j] by blast+

lemma run_unobserved_pair:
  assumes "run calls emptyMapper = Some mapper'"
    and "\<forall>(device, buttonMap)\<in>set (ingests calls).
           \<not> (fromC \<in> fst ` set buttonMap \<and> toC \<in> fst ` set buttonMap)"
  shows "snd (TransformFeatures mapper' j fromC toC features []) = []"
proof -
  have no: "needleOf fromC toC \<notin>
      (\<Union>(device, buttonMap)\<in>set (ingests calls). keyOf ` set (enumerated buttonMap))"
  proof
    assume "needleOf fromC toC \<in>
      (\<Union>(device, buttonMap)\<in>set (ingests calls). keyOf ` set (enumerated buttonMap))"
    then obtain x where x: "x \<in> set (ingests calls)"
      and k: "needleOf fromC toC \<in>
        (case x of (device, buttonMap) \<Rightarrow> keyOf ` set (enumerated buttonMap))"
      by (rule UN_E)
    obtain device buttonMap where xd: "x = (device, buttonMap)"
      by (cases x)
    from k obtain p where p: "p \<in> set (enumerated buttonMap)"
      and kp: "needleOf fromC toC = keyOf p"
      unfolding xd by auto
    from enumerated_keys_subset [OF p]
    have "fromC \<in> fst ` set buttonMap \<and> toC \<in> fst ` set buttonMap"
      unfolding kp [symmetric] by (simp only: needleOf_keys)
    moreover from bspec [OF assms(2) x]
    have "\<not> (fromC \<in> fst ` set buttonMap \<and> toC \<in> fst ` set buttonMap)"
      unfolding xd by simp
    ultimately show False by simp
  qed
  have "dom (m_map (familyModelOf emptyMapper j)) = {}"
    "dom (m_map (geometryModelOf emptyMapper j)) = {}"
    by simp_all
  with run_models_dom [OF assms(1), of j] no
  have "needleOf fromC toC \<notin> dom (m_map (familyModelOf mapper' j))"
    "needleOf fromC toC \<notin> dom (m_map (geometryModelOf mapper' j))"
    by blast+
  then show ?thesis
    by (rule TransformFeatures_no_entry)
qed

text \<open>
  C8, as the code has it. A query returns the empty sequence whenever neither the family
  model nor the geometry model of the device has an entry for the canonical pair. After
  any sequence of calls from the empty mapper that is so when no ingested device has the
  family or the geometry of the queried device, and when no ingested button map holds
  both controllers of the query. No operation fails: \<^verbatim>\<open>TransformFeatures\<close> has no failing
  branch, every sequence of calls and every call of \<^verbatim>\<open>OnAdd\<close> returns, and
  \<^verbatim>\<open>AddControllerMap\<close> returns for every pair in canonical order.
\<close>

theorem TransformFeatures_unobserved:
  "(needleOf fromC toC \<notin> dom (m_map (familyModelOf mapper j)) \<and>
    needleOf fromC toC \<notin> dom (m_map (geometryModelOf mapper j)) \<longrightarrow>
      snd (TransformFeatures mapper j fromC toC features []) = []) \<and>
   (\<exists>mapper'. run calls emptyMapper = Some mapper' \<and>
      ((\<forall>(device, buttonMap)\<in>set (ingests calls).
          familyOf (deref device) \<noteq> familyOf j \<and> geometryOf (deref device) \<noteq> geometryOf j) \<longrightarrow>
         snd (TransformFeatures mapper' j fromC toC features []) = []) \<and>
      ((\<forall>(device, buttonMap)\<in>set (ingests calls).
          \<not> (fromC \<in> fst ` set buttonMap \<and> toC \<in> fst ` set buttonMap)) \<longrightarrow>
         snd (TransformFeatures mapper' j fromC toC features []) = [])) \<and>
   (\<exists>mapper'. OnAdd mapper device buttonMap = Some mapper') \<and>
   (controllerFrom < controllerTo \<longrightarrow>
      (\<exists>r. AddControllerMap model controllerFrom featuresFrom controllerTo featuresTo = Some r))"
proof -
  obtain mapper' where r: "run calls emptyMapper = Some mapper'"
    using run_total by blast
  have d1: "(\<forall>(device, buttonMap)\<in>set (ingests calls).
          familyOf (deref device) \<noteq> familyOf j \<and> geometryOf (deref device) \<noteq> geometryOf j) \<longrightarrow>
         snd (TransformFeatures mapper' j fromC toC features []) = []"
    using run_unobserved_device [OF r] by (rule impI)
  have d2: "(\<forall>(device, buttonMap)\<in>set (ingests calls).
          \<not> (fromC \<in> fst ` set buttonMap \<and> toC \<in> fst ` set buttonMap)) \<longrightarrow>
         snd (TransformFeatures mapper' j fromC toC features []) = []"
    using run_unobserved_pair [OF r] by (rule impI)
  have dyn: "\<exists>mapper'. run calls emptyMapper = Some mapper' \<and>
      ((\<forall>(device, buttonMap)\<in>set (ingests calls).
          familyOf (deref device) \<noteq> familyOf j \<and> geometryOf (deref device) \<noteq> geometryOf j) \<longrightarrow>
         snd (TransformFeatures mapper' j fromC toC features []) = []) \<and>
      ((\<forall>(device, buttonMap)\<in>set (ingests calls).
          \<not> (fromC \<in> fst ` set buttonMap \<and> toC \<in> fst ` set buttonMap)) \<longrightarrow>
         snd (TransformFeatures mapper' j fromC toC features []) = [])"
    using r d1 d2 by (intro exI [of _ mapper'] conjI)
  have static: "needleOf fromC toC \<notin> dom (m_map (familyModelOf mapper j)) \<and>
      needleOf fromC toC \<notin> dom (m_map (geometryModelOf mapper j)) \<longrightarrow>
      snd (TransformFeatures mapper j fromC toC features []) = []"
    by (simp add: TransformFeatures_no_entry)
  have add: "controllerFrom < controllerTo \<longrightarrow>
      (\<exists>r. AddControllerMap model controllerFrom featuresFrom controllerTo featuresTo = Some r)"
    using AddControllerMap_total by blast
  from static dyn OnAdd_total [of mapper device buttonMap] add
  show ?thesis by (intro conjI)
qed

lemma run_D1: "run [Ingest D1 map1] emptyMapper = Some mapper1"
  by (simp add: OnAdd_D1)

theorem TransformFeatures_unobserved_witness:
  "snd (TransformFeatures mapper1 J4 ''Gamepad'' ''Wheel'' [Scalar 1 ''A''] []) = [] \<and>
   snd (TransformFeatures mapper1 (deref D1) ''Gamepad'' ''Pedals'' [Scalar 1 ''A''] []) = [] \<and>
   snd (TransformFeatures emptyMapper (deref D1) ''Gamepad'' ''Wheel'' [Scalar 1 ''A''] []) = [] \<and>
   run [Ingest D1 map1] emptyMapper = Some mapper1 \<and>
   OnAdd emptyMapper D1 map1 \<noteq> None \<and>
   ''Gamepad'' < ''Wheel'' \<and>
   AddControllerMap emptyModel ''Gamepad'' [Scalar 1 ''A''] ''Wheel'' [Scalar 1 ''Accelerate''] \<noteq>
     None"
proof -
  note a = TransformFeatures_unobserved [where calls = "[Ingest D1 map1]" and j = J4
      and fromC = "''Gamepad''" and toC = "''Wheel''" and features = "[Scalar 1 ''A'']"
      and mapper = emptyMapper and device = D1 and buttonMap = map1
      and controllerFrom = "''Gamepad''" and controllerTo = "''Wheel''" and model = emptyModel
      and featuresFrom = "[Scalar 1 ''A'']" and featuresTo = "[Scalar 1 ''Accelerate'']"]
  note b = TransformFeatures_unobserved [where calls = "[Ingest D1 map1]" and j = "deref D1"
      and fromC = "''Gamepad''" and toC = "''Pedals''" and features = "[Scalar 1 ''A'']"
      and mapper = emptyMapper and device = D1 and buttonMap = map1
      and controllerFrom = "''Gamepad''" and controllerTo = "''Wheel''" and model = emptyModel
      and featuresFrom = "[Scalar 1 ''A'']" and featuresTo = "[Scalar 1 ''Accelerate'']"]
  have other: "familyOf (deref D1) \<noteq> familyOf J4 \<and> geometryOf (deref D1) \<noteq> geometryOf J4"
    by (simp add: familyOf_def geometryOf_def D1_def J4_def)
  have pedals: "\<not> (''Gamepad'' \<in> fst ` set map1 \<and> ''Pedals'' \<in> fst ` set map1)"
    by (simp add: map1_def)
  from a other have 1: "snd (TransformFeatures mapper1 J4 ''Gamepad'' ''Wheel'' [Scalar 1 ''A''] []) = []"
    unfolding run_D1 by simp
  from b pedals have 2: "snd (TransformFeatures mapper1 (deref D1) ''Gamepad'' ''Pedals''
      [Scalar 1 ''A''] []) = []"
    unfolding run_D1 by simp
  from a have 3: "snd (TransformFeatures emptyMapper (deref D1) ''Gamepad'' ''Wheel''
      [Scalar 1 ''A''] []) = []"
    by (simp add: TransformFeatures_output)
  have lt: "''Gamepad'' < ''Wheel''" by simp
  from a have 4: "OnAdd emptyMapper D1 map1 \<noteq> None"
    by blast
  from a lt have 5: "AddControllerMap emptyModel ''Gamepad'' [Scalar 1 ''A''] ''Wheel''
      [Scalar 1 ''Accelerate''] \<noteq> None"
    by blast
  from 1 2 3 4 5 lt run_D1 show ?thesis by blast
qed

text \<open>
  A device that was never ingested can get a result that is not empty: after \<open>D1\<close> alone
  was ingested, a query for the joystick \<open>J3\<close>, which is not \<open>D1\<close> but of its family,
  returns the correspondence learned from \<open>D1\<close>.
\<close>

theorem TransformFeatures_unobserved_counterexample:
  "run [Ingest D1 map1] emptyMapper = Some mapper1 \<and>
   m_observedDevices mapper1 = {identity D1} \<and>
   J3 \<noteq> deref D1 \<and>
   snd (TransformFeatures mapper1 J3 ''Gamepad'' ''Wheel'' [Scalar 1 ''A''] []) =
     [Scalar 1 ''Accelerate'']"
proof -
  have "m_observedDevices mapper1 = {identity D1}"
    by (simp add: mapper1_def D1_def)
  moreover have "J3 \<noteq> deref D1"
    by (simp add: J3_def D1_def)
  moreover have "familyModelOf mapper1 J3 = learned1"
    by (simp add: familyModelOf_def mapper1_def J3_def D1_def familyOf_def subscript_def)
  then have "snd (TransformFeatures mapper1 J3 ''Gamepad'' ''Wheel'' [Scalar 1 ''A''] []) =
     [Scalar 1 ''Accelerate'']"
    by (simp add: TransformFeatures_output modelFeatures_learned1 del: One_nat_def)
  ultimately show ?thesis
    using run_D1 by blast
qed

section \<open>Counts\<close>

lemma FeatureMapItem_less_irrefl: "\<not> FeatureMapItem_less a a"
  by (simp add: FeatureMapItem_less_def)

lemma FeatureMapItem_less_trans:
  "FeatureMapItem_less a b \<Longrightarrow> FeatureMapItem_less b c \<Longrightarrow> FeatureMapItem_less a c"
  by (auto simp: FeatureMapItem_less_def)

lemma FeatureMapItem_less_total:
  "a \<noteq> b \<Longrightarrow> \<not> FeatureMapItem_less a b \<Longrightarrow> FeatureMapItem_less b a"
  by (cases a; cases b) (auto simp: FeatureMapItem_less_def)

lemma increment_keys: "fst ` set (increment item featureMap) = insert item (fst ` set featureMap)"
  by (induction item featureMap rule: increment.induct) auto

lemma increment_sorted:
  "sortedOccurrences featureMap \<Longrightarrow> sortedOccurrences (increment item featureMap)"
proof (induction item featureMap rule: increment.induct)
  case (1 item)
  then show ?case by (simp add: sortedOccurrences_def)
next
  case (2 item key n rest)
  from "2.prems" have above: "\<forall>k\<in>fst ` set rest. FeatureMapItem_less key k"
    and rest: "sortedOccurrences rest"
    by (auto simp: sortedOccurrences_def)
  show ?case
  proof (cases "item = key")
    case True
    with "2.prems" show ?thesis by (simp add: sortedOccurrences_def)
  next
    case False
    show ?thesis
    proof (cases "FeatureMapItem_less item key")
      case True
      with above have "\<forall>k\<in>fst ` set rest. FeatureMapItem_less item k"
        by (blast intro: FeatureMapItem_less_trans)
      with True False "2.prems" show ?thesis
        by (auto simp: sortedOccurrences_def)
    next
      case greater: False
      from False greater have "FeatureMapItem_less key item"
        by (simp add: FeatureMapItem_less_total)
      with above have "\<forall>k\<in>fst ` set (increment item rest). FeatureMapItem_less key k"
        by (simp add: increment_keys)
      moreover from "2.IH" [OF False greater rest]
      have "sortedOccurrences (increment item rest)" .
      ultimately show ?thesis
        using False greater by (auto simp: sortedOccurrences_def)
    qed
  qed
qed

lemma increment_count:
  "sortedOccurrences featureMap \<Longrightarrow>
   occurrenceCount (increment item featureMap) item' =
   occurrenceCount featureMap item' + (if item' = item then 1 else 0)"
proof (induction item featureMap rule: increment.induct)
  case (1 item)
  then show ?case by (simp add: occurrenceCount_def)
next
  case (2 item key n rest)
  from "2.prems" have above: "\<forall>k\<in>fst ` set rest. FeatureMapItem_less key k"
    and rest: "sortedOccurrences rest"
    by (auto simp: sortedOccurrences_def)
  show ?case
  proof (cases "item = key")
    case True
    then show ?thesis by (simp add: occurrenceCount_def)
  next
    case False
    show ?thesis
    proof (cases "FeatureMapItem_less item key")
      case True
      have "item \<notin> fst ` set rest"
      proof
        assume "item \<in> fst ` set rest"
        with above have "FeatureMapItem_less key item" by blast
        with True have "FeatureMapItem_less item item"
          by (rule FeatureMapItem_less_trans)
        then show False by (simp add: FeatureMapItem_less_irrefl)
      qed
      then have "map_of rest item = None"
        by (simp add: map_of_eq_None_iff)
      with True False show ?thesis
        by (simp add: occurrenceCount_def)
    next
      case greater: False
      from "2.IH" [OF False greater rest] False greater show ?thesis
        by (auto simp: occurrenceCount_def)
    qed
  qed
qed

lemma AddControllerMap_loop_count:
  "sortedOccurrences featureMap \<Longrightarrow>
   sortedOccurrences (fst (AddControllerMap_loop featuresFrom featuresTo (featureMap, bChanged))) \<and>
   occurrenceCount (fst (AddControllerMap_loop featuresFrom featuresTo (featureMap, bChanged))) item =
     occurrenceCount featureMap item + matches featuresFrom featuresTo item"
proof (induction featuresFrom arbitrary: featureMap bChanged)
  case Nil
  then show ?case by (simp add: matches_def)
next
  case (Cons fromF rest)
  show ?case
  proof (cases "find (Equivalent fromF) featuresTo")
    case None
    with Cons.IH [OF Cons.prems, of bChanged] show ?thesis
      by (simp add: matches_def)
  next
    case (Some toF)
    let ?item = "\<lparr>fromFeature = Name fromF, toFeature = Name toF\<rparr>"
    from Cons.prems have s: "sortedOccurrences (increment ?item featureMap)"
      by (rule increment_sorted)
    from Cons.IH [OF s, of True] increment_count [OF Cons.prems, of ?item item] Some
    show ?thesis
      by (auto simp: matches_def)
  qed
qed

lemma sortedOccurrences_subscript:
  "sortedModel model \<Longrightarrow> sortedOccurrences (subscript (m_map model) [] pair)"
  by (auto simp: sortedModel_def subscript_def sortedOccurrences_def ran_def
      split: option.splits)

lemma AddControllerMap_count:
  assumes "sortedModel model"
    and "AddControllerMap model controllerFrom featuresFrom controllerTo featuresTo =
         Some (changed, model')"
  shows "sortedModel model'"
    and "modelCount model' pair item =
         modelCount model pair item +
         (if pair = \<lparr>fromController = controllerFrom, toController = controllerTo\<rparr>
          then matches featuresFrom featuresTo item else 0)"
proof -
  let ?needle = "\<lparr>fromController = controllerFrom, toController = controllerTo\<rparr>"
  let ?old = "subscript (m_map model) [] ?needle"
  let ?new = "fst (AddControllerMap_loop featuresFrom featuresTo (?old, False))"
  from assms(2) have m: "m_map model' = (m_map model)(?needle \<mapsto> ?new)"
    by (auto simp: AddControllerMap_def Let_def Reset_def split: if_splits prod.splits)
  from assms(1) have "sortedOccurrences ?old"
    by (rule sortedOccurrences_subscript)
  note loop = AddControllerMap_loop_count [OF this, of featuresFrom featuresTo False item]
  from loop assms(1) show "sortedModel model'"
    by (auto simp: sortedModel_def m dest: ran_updD)
  from loop show "modelCount model' pair item =
         modelCount model pair item +
         (if pair = ?needle then matches featuresFrom featuresTo item else 0)"
    by (simp add: modelCount_def m subscript_def)
qed

lemma feed_count:
  assumes "feed ps (familyModel, geometryModel) = Some (familyModel', geometryModel')"
    and "sortedModel familyModel" and "sortedModel geometryModel"
  shows "sortedModel familyModel' \<and> sortedModel geometryModel' \<and>
         modelCount familyModel' pair item =
           modelCount familyModel pair item + contribution ps pair item \<and>
         modelCount geometryModel' pair item =
           modelCount geometryModel pair item + contribution ps pair item"
  using assms
proof (induction ps arbitrary: familyModel geometryModel)
  case Nil
  then show ?case by (simp add: contribution_def)
next
  case (Cons p ps)
  obtain itFrom itTo where p: "p = (itFrom, itTo)" by (cases p)
  from Cons.prems(1) obtain cf f1 cg g1 where
    f: "AddControllerMap familyModel (fst itFrom) (snd itFrom) (fst itTo) (snd itTo) = Some (cf, f1)"
    and g: "AddControllerMap geometryModel (fst itFrom) (snd itFrom) (fst itTo) (snd itTo) =
      Some (cg, g1)"
    and rest: "feed ps (f1, g1) = Some (familyModel', geometryModel')"
    by (auto simp: p split: option.splits prod.splits)
  note cf1 = AddControllerMap_count(1) [OF Cons.prems(2) f]
  note cg1 = AddControllerMap_count(1) [OF Cons.prems(3) g]
  note cf2 = AddControllerMap_count(2) [OF Cons.prems(2) f, of pair item]
  note cg2 = AddControllerMap_count(2) [OF Cons.prems(3) g, of pair item]
  from Cons.IH [OF rest cf1 cg1] cf2 cg2 show ?case
    by (auto simp: contribution_def p keyOf_def)
qed

lemma sortedModel_emptyModel [simp]: "sortedModel emptyModel"
  by (simp add: sortedModel_def emptyModel_def)

lemma sortedModel_models:
  "sortedMapper mapper \<Longrightarrow> sortedModel (familyModelOf mapper j)"
  "sortedMapper mapper \<Longrightarrow> sortedModel (geometryModelOf mapper j)"
  by (auto simp: sortedMapper_def familyModelOf_def geometryModelOf_def subscript_def ran_def
      split: option.splits)

lemma OnAdd_count:
  assumes "OnAdd mapper device buttonMap = Some mapper'" and "sortedMapper mapper"
  shows "sortedMapper mapper'"
    and "m_observedDevices mapper' = insert (identity device) (m_observedDevices mapper)"
    and "familyCount mapper' j pair item =
         familyCount mapper j pair item +
         (if identity device \<notin> m_observedDevices mapper \<and>
             familyOf (deref device) = familyOf j
          then contribution (enumerated buttonMap) pair item else 0)"
    and "geometryCount mapper' j pair item =
         geometryCount mapper j pair item +
         (if identity device \<notin> m_observedDevices mapper \<and>
             geometryOf (deref device) = geometryOf j
          then contribution (enumerated buttonMap) pair item else 0)"
proof -
  have "sortedMapper mapper' \<and>
    m_observedDevices mapper' = insert (identity device) (m_observedDevices mapper) \<and>
    familyCount mapper' j pair item =
         familyCount mapper j pair item +
         (if identity device \<notin> m_observedDevices mapper \<and>
             familyOf (deref device) = familyOf j
          then contribution (enumerated buttonMap) pair item else 0) \<and>
    geometryCount mapper' j pair item =
         geometryCount mapper j pair item +
         (if identity device \<notin> m_observedDevices mapper \<and>
             geometryOf (deref device) = geometryOf j
          then contribution (enumerated buttonMap) pair item else 0)"
  proof (cases "identity device \<in> m_observedDevices mapper")
    case True
    with assms show ?thesis by (auto simp: OnAdd_def)
  next
    case False
    let ?f = "familyModelOf mapper (deref device)"
    let ?g = "geometryModelOf mapper (deref device)"
    from assms(1) False obtain f' g' where
      fed: "feed (enumerated buttonMap) (?f, ?g) = Some (f', g')"
      and m: "mapper' =
        \<lparr>m_observedDevices = insert (identity device) (m_observedDevices mapper),
         m_familyModels = (m_familyModels mapper)(familyOf (deref device) \<mapsto> f'),
         m_geometryModels = (m_geometryModels mapper)(geometryOf (deref device) \<mapsto> g')\<rparr>"
      by (auto simp: OnAdd_def Let_def OnAdd_to_feed familyModelOf_def geometryModelOf_def
          split: option.splits prod.splits)
    note c = feed_count [OF fed sortedModel_models [OF assms(2)], of pair item]
    have ff: "familyModelOf mapper' j =
        (if familyOf (deref device) = familyOf j then f' else familyModelOf mapper j)"
      by (simp add: m familyModelOf_def subscript_def)
    have gg: "geometryModelOf mapper' j =
        (if geometryOf (deref device) = geometryOf j then g' else geometryModelOf mapper j)"
      by (simp add: m geometryModelOf_def subscript_def)
    have same: "familyOf (deref device) = familyOf j \<Longrightarrow> familyModelOf mapper j = ?f"
      "geometryOf (deref device) = geometryOf j \<Longrightarrow> geometryModelOf mapper j = ?g"
      by (simp_all add: familyModelOf_def geometryModelOf_def)
    from c assms(2) have s: "sortedMapper mapper'"
      by (auto simp: m sortedMapper_def dest: ran_updD)
    from c same False have "familyCount mapper' j pair item =
         familyCount mapper j pair item +
         (if identity device \<notin> m_observedDevices mapper \<and>
             familyOf (deref device) = familyOf j
          then contribution (enumerated buttonMap) pair item else 0)"
      by (simp add: familyCount_def ff)
    moreover from c same False have "geometryCount mapper' j pair item =
         geometryCount mapper j pair item +
         (if identity device \<notin> m_observedDevices mapper \<and>
             geometryOf (deref device) = geometryOf j
          then contribution (enumerated buttonMap) pair item else 0)"
      by (simp add: geometryCount_def gg)
    ultimately show ?thesis
      using s by (simp add: m)
  qed
  then show "sortedMapper mapper'"
    and "m_observedDevices mapper' = insert (identity device) (m_observedDevices mapper)"
    and "familyCount mapper' j pair item =
         familyCount mapper j pair item +
         (if identity device \<notin> m_observedDevices mapper \<and>
             familyOf (deref device) = familyOf j
          then contribution (enumerated buttonMap) pair item else 0)"
    and "geometryCount mapper' j pair item =
         geometryCount mapper j pair item +
         (if identity device \<notin> m_observedDevices mapper \<and>
             geometryOf (deref device) = geometryOf j
          then contribution (enumerated buttonMap) pair item else 0)"
    by blast+
qed

lemma TransformFeatures_count:
  "familyCount (fst (TransformFeatures mapper driverInfo fromC toC features out)) j pair item =
     familyCount mapper j pair item"
  "geometryCount (fst (TransformFeatures mapper driverInfo fromC toC features out)) j pair item =
     geometryCount mapper j pair item"
  by (simp_all add: familyCount_def geometryCount_def TransformFeatures_keeps_models)

lemma TransformFeatures_sorted:
  assumes "sortedMapper mapper"
  shows "sortedMapper (fst (TransformFeatures mapper driverInfo fromC toC features out))"
  using assms sortedModel_models [OF assms, of driverInfo]
  by (auto simp: TransformFeatures_mapper sortedMapper_def dest: ran_updD)

lemma step_count:
  assumes "step mapper c = Some mapper'" and "sortedMapper mapper"
  shows "sortedMapper mapper' \<and>
         familyCount mapper j pair item \<le> familyCount mapper' j pair item \<and>
         geometryCount mapper j pair item \<le> geometryCount mapper' j pair item"
proof (cases c)
  case (Ingest device buttonMap)
  with assms(1) have a: "OnAdd mapper device buttonMap = Some mapper'" by simp
  from OnAdd_count(1) [OF a assms(2)] OnAdd_count(3,4) [OF a assms(2), of j pair item]
  show ?thesis by simp
next
  case (Transform driverInfo fromC toC features out)
  with assms show ?thesis
    by (auto simp: TransformFeatures_count TransformFeatures_sorted)
qed

lemma run_count:
  assumes "run calls mapper = Some mapper'" and "sortedMapper mapper"
  shows "sortedMapper mapper' \<and>
         familyCount mapper j pair item \<le> familyCount mapper' j pair item \<and>
         geometryCount mapper j pair item \<le> geometryCount mapper' j pair item"
  using assms
proof (induction calls arbitrary: mapper)
  case Nil
  then show ?case by simp
next
  case (Cons c calls)
  from Cons.prems(1) obtain mapper1 where s: "step mapper c = Some mapper1"
    and r: "run calls mapper1 = Some mapper'"
    by (auto split: option.splits)
  note one = step_count [OF s Cons.prems(2), of j pair item]
  from one have "sortedMapper mapper1" by simp
  from Cons.IH [OF r this] one show ?case by simp
qed

lemma enumerated_set:
  "wellFormed buttonMap \<Longrightarrow>
   set (enumerated buttonMap) =
     {(itFrom, itTo). itFrom \<in> set buttonMap \<and> itTo \<in> set buttonMap \<and> fst itFrom < fst itTo}"
proof (induction buttonMap rule: rev_induct)
  case Nil
  then show ?case by (simp add: enumerated_def)
next
  case (snoc itTo entries)
  from snoc.prems have wf: "wellFormed entries"
    and before: "\<forall>itFrom\<in>set entries. fst itFrom < fst itTo"
    by (simp_all add: wellFormed_snoc)
  show ?case
    unfolding enumerated_snoc [OF snoc.prems] set_append snoc.IH [OF wf]
    using before by (auto dest: less_asym)
qed

lemma sum_list_single:
  "distinct (map k xs) \<Longrightarrow> x \<in> set xs \<Longrightarrow>
   sum_list (map (\<lambda>p. if k p = k x then m p else (0::nat)) xs) = m x"
proof (induction xs)
  case Nil
  then show ?case by simp
next
  case (Cons y ys)
  show ?case
  proof (cases "x = y")
    case True
    from Cons.prems(1) have fresh: "k y \<notin> k ` set ys" by simp
    have "\<forall>p\<in>set ys. k p \<noteq> k y"
    proof (intro ballI notI)
      fix p
      assume "p \<in> set ys" and "k p = k y"
      then have "k y \<in> k ` set ys" by (metis imageI)
      with fresh show False by simp
    qed
    then have "sum_list (map (\<lambda>p. if k p = k y then m p else 0) ys) = 0"
      by simp
    with True show ?thesis by simp
  next
    case False
    with Cons.prems have "x \<in> set ys" and "k y \<noteq> k x" by auto
    with Cons.IH Cons.prems(1) show ?thesis by simp
  qed
qed

lemma reproduces_contribution:
  assumes "reproduces buttonMap pair item"
  shows "contribution (enumerated buttonMap) pair item = 1"
proof -
  from assms obtain featuresFrom featuresTo where wf: "wellFormed buttonMap"
    and lt: "fromController pair < toController pair"
    and f: "map_of buttonMap (fromController pair) = Some featuresFrom"
    and t: "map_of buttonMap (toController pair) = Some featuresTo"
    and one: "matches featuresFrom featuresTo item = 1"
    by (auto simp: reproduces_def split: option.splits)
  let ?p = "((fromController pair, featuresFrom), (toController pair, featuresTo))"
  from f t have "(fromController pair, featuresFrom) \<in> set buttonMap"
    "(toController pair, featuresTo) \<in> set buttonMap"
    by (auto dest: map_of_SomeD)
  with lt have mem: "?p \<in> set (enumerated buttonMap)"
    by (simp add: enumerated_set [OF wf])
  have key: "keyOf ?p = pair"
    by (simp add: keyOf_def)
  from enumerated_keys [OF wf] have d: "distinct (map keyOf (enumerated buttonMap))"
    by simp
  from sum_list_single [OF d mem, of "\<lambda>p. matches (snd (fst p)) (snd (snd p)) item"]
  show ?thesis
    by (simp add: contribution_def key one)
qed

lemma ingest_all_count:
  assumes "run (map (\<lambda>(device, buttonMap). Ingest device buttonMap) devices) mapper =
           Some mapper'"
    and "sortedMapper mapper"
    and "distinct (map (\<lambda>(device, buttonMap). identity device) devices)"
    and "\<forall>(device, buttonMap)\<in>set devices.
           identity device \<notin> m_observedDevices mapper \<and> reproduces buttonMap pair item"
  shows "familyCount mapper' j pair item =
           familyCount mapper j pair item +
           length (filter (\<lambda>(device, buttonMap). familyOf (deref device) = familyOf j) devices) \<and>
         geometryCount mapper' j pair item =
           geometryCount mapper j pair item +
           length (filter (\<lambda>(device, buttonMap). geometryOf (deref device) = geometryOf j) devices)"
  using assms
proof (induction devices arbitrary: mapper)
  case Nil
  then show ?case by simp
next
  case (Cons x devices)
  obtain device buttonMap where x: "x = (device, buttonMap)" by (cases x)
  from Cons.prems(1) obtain mapper1 where a: "OnAdd mapper device buttonMap = Some mapper1"
    and r: "run (map (\<lambda>(device, buttonMap). Ingest device buttonMap) devices) mapper1 =
      Some mapper'"
    by (auto simp: x split: option.splits)
  from Cons.prems(4) have new: "identity device \<notin> m_observedDevices mapper"
    and rep: "reproduces buttonMap pair item"
    by (simp_all add: x)
  note s1 = OnAdd_count(1) [OF a Cons.prems(2)]
  note o1 = OnAdd_count(2) [OF a Cons.prems(2)]
  note f1 = OnAdd_count(3) [OF a Cons.prems(2), of j pair item]
  note g1 = OnAdd_count(4) [OF a Cons.prems(2), of j pair item]
  from Cons.prems(3) have d: "distinct (map (\<lambda>(device, buttonMap). identity device) devices)"
    and other: "\<forall>(device', buttonMap')\<in>set devices. identity device' \<noteq> identity device"
    by (force simp: x)+
  from Cons.prems(4) other have
    "\<forall>(device, buttonMap)\<in>set devices.
       identity device \<notin> m_observedDevices mapper1 \<and> reproduces buttonMap pair item"
    by (auto simp: o1)
  from Cons.IH [OF r s1 d this] f1 g1 new reproduces_contribution [OF rep]
  show ?case
    by (simp add: x)
qed

lemma sortedMapper_emptyMapper: "sortedMapper emptyMapper"
  by (simp add: sortedMapper_def emptyMapper_def)

text \<open>
  C6, as the code has it. In every mapper reached from the empty one, every further
  sequence of calls leaves each count of the family model and of the geometry model of
  any device at least as large as it was. Ingesting a list of devices with distinct
  identities, none observed before, whose button maps each reproduce a correspondence
  once, adds to the count of that correspondence in the family model of a device the
  number of devices of the list that have its family, and in its geometry model the
  number of those that have its geometry: \<open>N\<close> for \<open>N\<close> devices of one family.
\<close>

theorem counts_monotone:
  "\<exists>mapper0. run calls0 emptyMapper = Some mapper0 \<and>
     (\<exists>mapper'. run calls mapper0 = Some mapper' \<and>
        familyCount mapper0 j pair item \<le> familyCount mapper' j pair item \<and>
        geometryCount mapper0 j pair item \<le> geometryCount mapper' j pair item) \<and>
     (distinct (map (\<lambda>(device, buttonMap). identity device) devices) \<and>
      (\<forall>(device, buttonMap)\<in>set devices.
         identity device \<notin> m_observedDevices mapper0 \<and> reproduces buttonMap pair item) \<longrightarrow>
        (\<exists>mapper'.
           run (map (\<lambda>(device, buttonMap). Ingest device buttonMap) devices) mapper0 =
             Some mapper' \<and>
           familyCount mapper' j pair item =
             familyCount mapper0 j pair item +
             length (filter (\<lambda>(device, buttonMap). familyOf (deref device) = familyOf j)
                       devices) \<and>
           geometryCount mapper' j pair item =
             geometryCount mapper0 j pair item +
             length (filter (\<lambda>(device, buttonMap). geometryOf (deref device) = geometryOf j)
                       devices)))"
proof -
  obtain mapper0 where r0: "run calls0 emptyMapper = Some mapper0"
    using run_total by blast
  from run_count [OF r0 sortedMapper_emptyMapper, of j pair item]
  have s0: "sortedMapper mapper0" by simp
  obtain mapper1 where r1: "run calls mapper0 = Some mapper1"
    using run_total by blast
  from run_count [OF r1 s0, of j pair item] r1
  have mono: "\<exists>mapper'. run calls mapper0 = Some mapper' \<and>
        familyCount mapper0 j pair item \<le> familyCount mapper' j pair item \<and>
        geometryCount mapper0 j pair item \<le> geometryCount mapper' j pair item"
    by simp
  obtain mapper2 where
    r2: "run (map (\<lambda>(device, buttonMap). Ingest device buttonMap) devices) mapper0 =
      Some mapper2"
    using run_total by blast
  have exact: "distinct (map (\<lambda>(device, buttonMap). identity device) devices) \<and>
      (\<forall>(device, buttonMap)\<in>set devices.
         identity device \<notin> m_observedDevices mapper0 \<and> reproduces buttonMap pair item) \<longrightarrow>
        (\<exists>mapper'.
           run (map (\<lambda>(device, buttonMap). Ingest device buttonMap) devices) mapper0 =
             Some mapper' \<and>
           familyCount mapper' j pair item =
             familyCount mapper0 j pair item +
             length (filter (\<lambda>(device, buttonMap). familyOf (deref device) = familyOf j)
                       devices) \<and>
           geometryCount mapper' j pair item =
             geometryCount mapper0 j pair item +
             length (filter (\<lambda>(device, buttonMap). geometryOf (deref device) = geometryOf j)
                       devices))"
  proof (intro impI, elim conjE)
    assume d: "distinct (map (\<lambda>(device, buttonMap). identity device) devices)"
      and n: "\<forall>(device, buttonMap)\<in>set devices.
         identity device \<notin> m_observedDevices mapper0 \<and> reproduces buttonMap pair item"
    from ingest_all_count [OF r2 s0 d n, of j] r2
    show "\<exists>mapper'.
           run (map (\<lambda>(device, buttonMap). Ingest device buttonMap) devices) mapper0 =
             Some mapper' \<and>
           familyCount mapper' j pair item =
             familyCount mapper0 j pair item +
             length (filter (\<lambda>(device, buttonMap). familyOf (deref device) = familyOf j)
                       devices) \<and>
           geometryCount mapper' j pair item =
             geometryCount mapper0 j pair item +
             length (filter (\<lambda>(device, buttonMap). geometryOf (deref device) = geometryOf j)
                       devices)"
      by simp
  qed
  show ?thesis
    by (rule exI [of _ mapper0]) (rule conjI [OF r0 conjI [OF mono exact]])
qed

lemma reproduces_map1: "reproduces map1 needle1 item1"
  by (simp add: reproduces_def wellFormed_def map1_def needle1_def item1_def matches_def
      Equivalent_def Scalar_def)

theorem counts_monotone_witness:
  "reproduces map1 needle1 item1 \<and>
   identity D1 \<noteq> identity D2 \<and>
   familyOf (deref D2) = familyOf (deref D1) \<and>
   geometryOf (deref D2) = geometryOf (deref D1) \<and>
   familyCount emptyMapper (deref D1) needle1 item1 = 0 \<and>
   familyCount (the (run [Ingest D1 map1, Ingest D2 map1] emptyMapper)) (deref D1) needle1 item1 = 2 \<and>
   geometryCount (the (run [Ingest D1 map1, Ingest D2 map1] emptyMapper)) (deref D1) needle1 item1 = 2"
proof -
  note c = counts_monotone [where ?calls0.0 = "[]" and calls = "[Ingest D1 map1]"
      and j = "deref D1" and pair = needle1 and item = item1
      and devices = "[(D1, map1), (D2, map1)]"]
  have ids: "identity D1 \<noteq> identity D2"
    by (simp add: D1_def D2_def)
  have same: "familyOf (deref D2) = familyOf (deref D1)"
    "geometryOf (deref D2) = geometryOf (deref D1)"
    by (simp_all add: D1_def D2_def)
  have zero: "familyCount emptyMapper (deref D1) needle1 item1 = 0"
    "geometryCount emptyMapper (deref D1) needle1 item1 = 0"
    by (simp_all add: familyCount_def geometryCount_def modelCount_def occurrenceCount_def
        subscript_def)
  have new: "identity D1 \<notin> m_observedDevices emptyMapper"
    "identity D2 \<notin> m_observedDevices emptyMapper"
    by (simp_all add: emptyMapper_def)
  from c ids same zero new reproduces_map1
  have "\<exists>mapper'. run [Ingest D1 map1, Ingest D2 map1] emptyMapper = Some mapper' \<and>
      familyCount mapper' (deref D1) needle1 item1 = 2 \<and>
      geometryCount mapper' (deref D1) needle1 item1 = 2"
    by (auto simp del: run.simps(2))
  with ids same zero reproduces_map1 show ?thesis
    by auto
qed

lemma OnAdd_D5: "OnAdd mapper1 D5 map1 = Some mapper15"
  by (simp add: OnAdd_def mapper1_def D1_def D5_def J4_def map1_def subscript_def Let_def
      familyOf_def geometryOf_def AddControllerMap_def emptyModel_def Equivalent_def Scalar_def
      Reset_def mapper15_def learned1_def needle1_def entry1_def fun_upd_twist)

text \<open>
  Devices that share neither family nor geometry raise no count by their number: after
  \<open>D1\<close> and \<open>D5\<close>, two devices with distinct identities whose button maps both reproduce
  the correspondence, every count of the correspondence is 1, not 2.
\<close>

theorem counts_monotone_counterexample:
  "reproduces map1 needle1 item1 \<and>
   identity D1 \<noteq> identity D5 \<and>
   run [Ingest D1 map1, Ingest D5 map1] emptyMapper = Some mapper15 \<and>
   familyCount mapper15 (deref D1) needle1 item1 = 1 \<and>
   geometryCount mapper15 (deref D1) needle1 item1 = 1 \<and>
   familyCount mapper15 (deref D5) needle1 item1 = 1 \<and>
   geometryCount mapper15 (deref D5) needle1 item1 = 1"
proof -
  have ids: "identity D1 \<noteq> identity D5"
    by (simp add: D1_def D5_def)
  have r: "run [Ingest D1 map1, Ingest D5 map1] emptyMapper = Some mapper15"
    by (simp add: OnAdd_D1 OnAdd_D5)
  have m: "familyModelOf mapper15 (deref D1) = learned1"
    "geometryModelOf mapper15 (deref D1) = learned1"
    "familyModelOf mapper15 (deref D5) = learned1"
    "geometryModelOf mapper15 (deref D5) = learned1"
    by (simp_all add: familyModelOf_def geometryModelOf_def mapper15_def D1_def D5_def J4_def
        familyOf_def geometryOf_def subscript_def)
  have c: "modelCount learned1 needle1 item1 = 1"
    by (simp add: modelCount_def occurrenceCount_def subscript_def learned1_def entry1_def
        item1_def)
  from ids r c reproduces_map1 show ?thesis
    by (simp add: familyCount_def geometryCount_def m)
qed

section \<open>Learning correspondences and reading them back\<close>









lemma correspondences_mem:
  "key \<in> set (correspondences featuresA featuresB) \<longleftrightarrow>
   (\<exists>f t. f \<in> set featuresA \<and> find (Equivalent f) featuresB = Some t \<and>
      key = \<lparr>fromFeature = Name f, toFeature = Name t\<rparr>)"
  by (auto simp: correspondences_def matched_def)



lemma find_the: "x \<in> set xs \<Longrightarrow> P x \<Longrightarrow> find P xs = Some (the (find P xs))"
  by (cases "find P xs") (auto simp: find_None_iff)












end
